theory Spec2Isabelle
  imports Main "HOL-Library.Char_ord" "HOL-Library.List_Lexorder"
begin

section \<open>Values of the decoded JSON payload\<close>

text \<open>
  \<^verbatim>\<open>json.Unmarshal(data, &fields)\<close> with \<^verbatim>\<open>fields map[string]interface{}\<close> stores
  \<^verbatim>\<open>nil\<close>, \<^verbatim>\<open>bool\<close>, \<^verbatim>\<open>float64\<close>, \<^verbatim>\<open>string\<close>, \<^verbatim>\<open>[]interface{}\<close> and
  \<^verbatim>\<open>map[string]interface{}\<close>. The decoder only ever renders such a value with
  \<^verbatim>\<open>fmt.Sprintf("%v", ...)\<close>, and for a \<^verbatim>\<open>float64\<close> that rendering is
  \<^verbatim>\<open>strconv.FormatFloat(f, 'g', -1, 64)\<close>: it depends on the sign and on the shortest
  decimal digits that identify the float (strconv's \<^verbatim>\<open>decimalSlice\<close>: the ASCII digits
  \<^verbatim>\<open>d[0:nd]\<close> and the position \<^verbatim>\<open>dp\<close> of the decimal point, the value being
  \<^verbatim>\<open>0.d[0]d[1]... * 10^dp\<close>). A \<^verbatim>\<open>float64\<close> is represented here by exactly these.
\<close>

record decimalSlice =
  d :: string
  dp :: int

definition nd :: "decimalSlice \<Rightarrow> nat" where
  "nd digs = length (d digs)"

datatype float64 =
    Finite bool decimalSlice
  | Inf bool
  | NaN

datatype json =
    JNull
  | JBool bool
  | JNumber float64
  | JString string
  | JArray "json list"
  | JObject "(string \<times> json) list"

text \<open>The zero value of \<^verbatim>\<open>float64\<close>: no digits, decimal point at 0, positive.\<close>

definition float64_zero :: float64 where
  "float64_zero = Finite False \<lparr>d = [], dp = 0\<rparr>"

text \<open>A digit string is well formed when it holds ASCII digits only.\<close>

definition is_digit :: "char \<Rightarrow> bool" where
  "is_digit c = (CHR ''0'' \<le> c \<and> c \<le> CHR ''9'')"

definition digit_val :: "char \<Rightarrow> nat" where
  "digit_val c = of_char c - 48"

text \<open>\<^verbatim>\<open>byte(n) + '0'\<close>: the addition of bytes wraps at 256, as \<open>char_of\<close> does.\<close>

definition digit_char :: "nat \<Rightarrow> char" where
  "digit_char n = char_of (48 + n)"

text \<open>Go's conversion \<^verbatim>\<open>byte(x)\<close> of an integer.\<close>

definition byte :: "int \<Rightarrow> nat" where
  "byte x = nat (x mod 256)"

section \<open>strconv.FormatFloat, format 'g', shortest precision\<close>

text \<open>
  \<^verbatim>\<open>fmtE\<close> (\<^verbatim>\<open>%e: -d.ddddde+dd\<close>) and \<^verbatim>\<open>fmtF\<close> (\<^verbatim>\<open>%f: -ddddddd.ddddd\<close>) of Go's
  \<^verbatim>\<open>strconv/ftoa.go\<close>, statement by statement.
\<close>

definition fmtE :: "bool \<Rightarrow> decimalSlice \<Rightarrow> int \<Rightarrow> string" where
  "fmtE neg digs prec =
     (if neg then ''-'' else '''') @
     [if nd digs \<noteq> 0 then d digs ! 0 else CHR ''0''] @
     (if prec > 0 then
        (let m = min (nd digs) (nat (prec + 1)) in
           ''.'' @ (if 1 < m then take (m - 1) (drop 1 (d digs)) else [])
                 @ replicate (nat (prec + 1) - max 1 m) CHR ''0'')
      else []) @
     ''e'' @
     (let exp = (if nd digs = 0 then 0 else dp digs - 1);
          ch = (if exp < 0 then CHR ''-'' else CHR ''+'');
          exp = (if exp < 0 then - exp else exp)
      in ch #
         (if exp < 10 then [CHR ''0'', digit_char (byte exp)]
          else if exp < 100 then [digit_char (byte (exp div 10)), digit_char (byte (exp mod 10))]
          else [digit_char (byte (exp div 100)), digit_char (byte (exp div 10) mod 10),
                digit_char (byte (exp mod 10))]))"

definition fmtF :: "bool \<Rightarrow> decimalSlice \<Rightarrow> int \<Rightarrow> string" where
  "fmtF neg digs prec =
     (if neg then ''-'' else '''') @
     (if dp digs > 0 then
        (let m = min (nd digs) (nat (dp digs)) in
           take m (d digs) @ replicate (nat (dp digs) - m) CHR ''0'')
      else ''0'') @
     (if prec > 0 then
        ''.'' @ map (\<lambda>i. let j = dp digs + int i in
                            if 0 \<le> j \<and> j < int (nd digs) then d digs ! nat j else CHR ''0'')
                    [0 ..< nat prec]
      else [])"

text \<open>
  \<^verbatim>\<open>formatDigits\<close> for \<^verbatim>\<open>'g'\<close> with the shortest precision: the precision is the
  number of digits, and \<^verbatim>\<open>%e\<close> is used when the exponent is below -4 or at least 6
  (``if precision was the shortest possible, use precision 6 for this decision'').
\<close>

definition formatDigits_g :: "bool \<Rightarrow> decimalSlice \<Rightarrow> string" where
  "formatDigits_g neg digs =
     (let prec = int (nd digs);
          eprec = 6;
          exp = dp digs - 1
      in if exp < -4 \<or> exp \<ge> eprec then fmtE neg digs (prec - 1)
         else fmtF neg digs (max (prec - dp digs) 0))"

text \<open>\<^verbatim>\<open>%v\<close> of a \<^verbatim>\<open>float64\<close>; infinities and NaN print as fmt prints them.\<close>

fun FormatFloat :: "float64 \<Rightarrow> string" where
  "FormatFloat (Finite neg digs) = formatDigits_g neg digs"
| "FormatFloat (Inf neg) = (if neg then ''-Inf'' else ''+Inf'')"
| "FormatFloat NaN = ''NaN''"

section \<open>fmt.Sprintf("%v", ...)\<close>

fun join_sp :: "string list \<Rightarrow> string" where
  "join_sp [] = []"
| "join_sp [x] = x"
| "join_sp (x # y # ys) = x @ '' '' @ join_sp (y # ys)"

text \<open>
  The \<^verbatim>\<open>%v\<close> rendering of a non-nil interface value: strings print raw, slices as
  \<^verbatim>\<open>[a b c]\<close>, maps as \<^verbatim>\<open>map[k:v k:v]\<close> with the keys sorted. The association list of
  a \<open>JObject\<close> stands for a Go map: \<open>map_of\<close> is its lookup.
\<close>

primrec Sprintf_json :: "json \<Rightarrow> string" where
  "Sprintf_json JNull = ''<nil>''"
| "Sprintf_json (JBool b) = (if b then ''true'' else ''false'')"
| "Sprintf_json (JNumber f) = FormatFloat f"
| "Sprintf_json (JString s) = s"
| "Sprintf_json (JArray xs) = ''['' @ join_sp (map Sprintf_json xs) @ '']''"
| "Sprintf_json (JObject kvs) =
     ''map['' @ join_sp (map (\<lambda>(k, v). k @ '':'' @ v)
                             (sort_key fst (map (map_prod id Sprintf_json) kvs))) @ '']''"

text \<open>
  \<^verbatim>\<open>fmt.Sprintf("%v", fields[key])\<close>: a key that is missing from the map reads as the
  nil interface, which prints as \<^verbatim>\<open><nil>\<close>, like a JSON null.
\<close>

definition Sprintf_v :: "json option \<Rightarrow> string" where
  "Sprintf_v v = (case v of None \<Rightarrow> ''<nil>'' | Some j \<Rightarrow> Sprintf_json j)"

text \<open>\<^verbatim>\<open>fmt.Sprintf("%v", n)\<close> for a Go \<^verbatim>\<open>int\<close>: decimal digits, with a minus sign.\<close>

fun digits10 :: "nat \<Rightarrow> string" where
  "digits10 n = (if n < 10 then [digit_char n] else digits10 (n div 10) @ [digit_char (n mod 10)])"

definition Sprintf_int :: "int \<Rightarrow> string" where
  "Sprintf_int n = (if n < 0 then ''-'' @ digits10 (nat (- n)) else digits10 (nat n))"

section \<open>strconv.ParseInt(s, 10, 64)\<close>

datatype strconv_err = ErrSyntax | ErrRange

text \<open>
  \<^verbatim>\<open>*strconv.NumError{Func, Num, Err}\<close> is what a failed conversion returns: the name of
  the failing function, the input text and the reason. Every other error (of the JSON
  parser, of the transport) is opaque here.
\<close>

datatype error =
    NumError string string strconv_err
  | OtherError string

text \<open>
  \<^verbatim>\<open>ParseUint\<close>'s loop over the bytes of \<^verbatim>\<open>s\<close> in base 10 with 64 bits. The source
  tests \<^verbatim>\<open>n >= cutoff\<close> (then \<^verbatim>\<open>n*10\<close> overflows) and \<^verbatim>\<open>n1 < n || n1 > maxVal\<close>
  (then \<^verbatim>\<open>n*10 + d\<close> overflows); on unbounded naturals both say
  \<^verbatim>\<open>n*10 + d > 2^64 - 1\<close>.
\<close>

fun ParseUint_loop :: "string \<Rightarrow> nat \<Rightarrow> strconv_err + nat" where
  "ParseUint_loop [] n = Inr n"
| "ParseUint_loop (c # cs) n =
     (if \<not> is_digit c then Inl ErrSyntax
      else if n * 10 + digit_val c > 18446744073709551615 then Inl ErrRange
      else ParseUint_loop cs (n * 10 + digit_val c))"

definition ParseUint :: "string \<Rightarrow> strconv_err + nat" where
  "ParseUint s = (if s = [] then Inl ErrSyntax else ParseUint_loop s 0)"

text \<open>
  \<^verbatim>\<open>ParseInt\<close>: pick off a leading sign, convert unsigned, check the range of
  \<^verbatim>\<open>int64\<close>. The error names \<^verbatim>\<open>ParseInt\<close> and the whole input \<^verbatim>\<open>s0\<close>.
\<close>

definition ParseInt :: "string \<Rightarrow> error + int" where
  "ParseInt s0 =
     (if s0 = [] then Inl (NumError ''ParseInt'' s0 ErrSyntax)
      else
        let neg = (hd s0 = CHR ''-'');
            s = (if hd s0 = CHR ''+'' \<or> hd s0 = CHR ''-'' then tl s0 else s0)
        in case ParseUint s of
             Inl ErrSyntax \<Rightarrow> Inl (NumError ''ParseInt'' s0 ErrSyntax)
           | Inl ErrRange \<Rightarrow> Inl (NumError ''ParseInt'' s0 ErrRange)
           | Inr un \<Rightarrow>
               if \<not> neg \<and> un \<ge> 9223372036854775808 then Inl (NumError ''ParseInt'' s0 ErrRange)
               else if neg \<and> un > 9223372036854775808 then Inl (NumError ''ParseInt'' s0 ErrRange)
               else Inr (if neg then - int un else int un))"

section \<open>The number a float64 or a digit string stands for\<close>

text \<open>
  The digits of a \<^verbatim>\<open>decimalSlice\<close> are ASCII digits. A float is an integer when its
  decimal point is not before its last digit, and then its value is its digits followed
  by zeros up to the decimal point. It prints as a plain decimal integer under \<^verbatim>\<open>%v\<close>
  when moreover its decimal point is at most at position 6, that is, when its magnitude
  is below \<^verbatim>\<open>1e6\<close>.
\<close>

definition digits_val :: "string \<Rightarrow> nat" where
  "digits_val s = foldl (\<lambda>n c. n * 10 + digit_val c) 0 s"

definition float64_wf :: "float64 \<Rightarrow> bool" where
  "float64_wf f = (case f of Finite neg digs \<Rightarrow> list_all is_digit (d digs) | _ \<Rightarrow> True)"

definition prints_as_integer :: "float64 \<Rightarrow> bool" where
  "prints_as_integer f =
     (case f of Finite neg digs \<Rightarrow> int (nd digs) \<le> dp digs \<and> dp digs \<le> 6 | _ \<Rightarrow> False)"

definition float64_int :: "float64 \<Rightarrow> int" where
  "float64_int f =
     (case f of
        Finite neg digs \<Rightarrow>
          (if neg then - 1 else 1) * int (digits_val (d digs)) *
          10 ^ nat (dp digs - int (nd digs))
      | _ \<Rightarrow> 0)"

section \<open>The Server entity\<close>

text \<open>
  The structs of the source. \<^verbatim>\<open>V6Network.MainIP\<close> is named \<open>V6MainIP\<close> and
  \<^verbatim>\<open>ServerOptions.AutoBackups\<close> is named \<open>OptAutoBackups\<close>, since \<^verbatim>\<open>Server\<close> has
  fields of the same names. A Go \<^verbatim>\<open>int\<close> is 64 bits wide on the supported platforms,
  so \<^verbatim>\<open>int(vcpu)\<close> of an \<^verbatim>\<open>int64\<close> changes nothing; no arithmetic is done on these
  fields. A nil slice and an empty slice are both the empty list. The decoder's map
  \<^verbatim>\<open>fields\<close> is written \<open>fields'\<close> and an \<^verbatim>\<open>id\<close> argument \<open>id'\<close>.
\<close>

record V6Network =
  Network :: string
  V6MainIP :: string
  NetworkSize :: string

record Server =
  ID :: string
  Name :: string
  OS :: string
  RAM :: string
  Disk :: string
  MainIP :: string
  VCpus :: int
  Location :: string
  RegionID :: int
  DefaultPassword :: string
  Created :: string
  PendingCharges :: float64
  Status :: string
  Cost :: string
  CurrentBandwidth :: float64
  AllowedBandwidth :: float64
  NetmaskV4 :: string
  GatewayV4 :: string
  PowerStatus :: string
  ServerState :: string
  PlanID :: int
  V6Networks :: "V6Network list"
  InternalIP :: string
  KVMUrl :: string
  AutoBackups :: string
  Tag :: string

record ServerOptions =
  IPXEChainURL :: string
  ISO :: int
  Script :: int
  UserData :: string
  Snapshot :: string
  SSHKey :: string
  IPV6 :: bool
  PrivateNetworking :: bool
  OptAutoBackups :: bool
  DontNotifyOnActivate :: bool

text \<open>The zero value \<^verbatim>\<open>Server{}\<close>.\<close>

definition Server_zero :: Server where
  "Server_zero =
     \<lparr>ID = [], Name = [], OS = [], RAM = [], Disk = [], MainIP = [], VCpus = 0,
      Location = [], RegionID = 0, DefaultPassword = [], Created = [],
      PendingCharges = float64_zero, Status = [], Cost = [],
      CurrentBandwidth = float64_zero, AllowedBandwidth = float64_zero, NetmaskV4 = [],
      GatewayV4 = [], PowerStatus = [], ServerState = [], PlanID = 0, V6Networks = [],
      InternalIP = [], KVMUrl = [], AutoBackups = [], Tag = []\<rparr>"

section \<open>Server.UnmarshalJSON\<close>

text \<open>
  The text a numeric field is parsed from (lines 81 to 84, repeated for each of the six
  fields): the \<^verbatim>\<open>%v\<close> rendering of the map entry, replaced by \<^verbatim>\<open>"0"\<close> when it is
  empty or \<^verbatim>\<open><nil>\<close>.
\<close>

definition numeric_text :: "json option \<Rightarrow> string" where
  "numeric_text v =
     (let value = Sprintf_v v
      in if length value = 0 \<or> value = ''<nil>'' then ''0'' else value)"

text \<open>
  The struct literal of lines 161 to 165, and the loop over \<^verbatim>\<open>networks\<close> (lines 159 to
  168): elements that are not objects are skipped.
\<close>

definition v6network_of :: "(string \<times> json) list \<Rightarrow> V6Network" where
  "v6network_of network =
     \<lparr>Network = Sprintf_v (map_of network ''v6_network''),
      V6MainIP = Sprintf_v (map_of network ''v6_main_ip''),
      NetworkSize = Sprintf_v (map_of network ''v6_network_size'')\<rparr>"

fun v6networks_loop :: "json list \<Rightarrow> V6Network list \<Rightarrow> V6Network list" where
  "v6networks_loop [] v6networks = v6networks"
| "v6networks_loop (JObject network # networks) v6networks =
     v6networks_loop networks (v6networks @ [v6network_of network])"
| "v6networks_loop (_ # networks) v6networks = v6networks_loop networks v6networks"

text \<open>Lines 141 to 175: the string fields and the networks; nothing here can fail.\<close>

definition decode_strings :: "Server \<Rightarrow> (string \<rightharpoonup> json) \<Rightarrow> Server" where
  "decode_strings s fields' =
     (let s = s\<lparr>ID := Sprintf_v (fields' ''SUBID''),
                Name := Sprintf_v (fields' ''label''),
                OS := Sprintf_v (fields' ''os''),
                RAM := Sprintf_v (fields' ''ram''),
                Disk := Sprintf_v (fields' ''disk''),
                MainIP := Sprintf_v (fields' ''main_ip''),
                Location := Sprintf_v (fields' ''location''),
                DefaultPassword := Sprintf_v (fields' ''default_password''),
                Created := Sprintf_v (fields' ''date_created''),
                Status := Sprintf_v (fields' ''status''),
                Cost := Sprintf_v (fields' ''cost_per_month''),
                NetmaskV4 := Sprintf_v (fields' ''netmask_v4''),
                GatewayV4 := Sprintf_v (fields' ''gateway_v4''),
                PowerStatus := Sprintf_v (fields' ''power_status''),
                ServerState := Sprintf_v (fields' ''server_state'')\<rparr>;
          s = (case fields' ''v6_networks'' of
                 Some (JArray networks) \<Rightarrow> s\<lparr>V6Networks := v6networks_loop networks []\<rparr>
               | _ \<Rightarrow> s)
      in s\<lparr>InternalIP := Sprintf_v (fields' ''internal_ip''),
            KVMUrl := Sprintf_v (fields' ''kvm_url''),
            AutoBackups := Sprintf_v (fields' ''auto_backups''),
            Tag := Sprintf_v (fields' ''tag'')\<rparr>)"

text \<open>
  Lines 81 to 177, on the decoded map. The receiver \<^verbatim>\<open>*s\<close> is updated in place, so the
  model takes the target and returns it as the call leaves it, with the error if any.
  \<^verbatim>\<open>strconv.ParseFloat(value, 64)\<close> is a parameter.
\<close>

definition decode_fields ::
  "(string \<Rightarrow> error + float64) \<Rightarrow> Server \<Rightarrow> (string \<rightharpoonup> json) \<Rightarrow> Server \<times> error option" where
  "decode_fields ParseFloat s fields' =
     (case ParseInt (numeric_text (fields' ''vcpu_count'')) of
        Inl err \<Rightarrow> (s, Some err)
      | Inr vcpu \<Rightarrow>
     let s = s\<lparr>VCpus := vcpu\<rparr> in
     case ParseInt (numeric_text (fields' ''DCID'')) of
        Inl err \<Rightarrow> (s, Some err)
      | Inr region \<Rightarrow>
     let s = s\<lparr>RegionID := region\<rparr> in
     case ParseInt (numeric_text (fields' ''VPSPLANID'')) of
        Inl err \<Rightarrow> (s, Some err)
      | Inr plan \<Rightarrow>
     let s = s\<lparr>PlanID := plan\<rparr> in
     case ParseFloat (numeric_text (fields' ''pending_charges'')) of
        Inl err \<Rightarrow> (s, Some err)
      | Inr pc \<Rightarrow>
     let s = s\<lparr>PendingCharges := pc\<rparr> in
     case ParseFloat (numeric_text (fields' ''current_bandwidth_gb'')) of
        Inl err \<Rightarrow> (s, Some err)
      | Inr cb \<Rightarrow>
     let s = s\<lparr>CurrentBandwidth := cb\<rparr> in
     case ParseFloat (numeric_text (fields' ''allowed_bandwidth_gb'')) of
        Inl err \<Rightarrow> (s, Some err)
      | Inr ab \<Rightarrow>
     let s = s\<lparr>AllowedBandwidth := ab\<rparr> in
     (decode_strings s fields', None))"

text \<open>
  The whole method: \<^verbatim>\<open>json.Unmarshal(data, &fields)\<close> is a parameter, returning the
  map or the error of the parse. The receiver is taken to be non-nil, as it is when the
  JSON decoder calls the method.
\<close>

definition UnmarshalJSON ::
  "(string \<Rightarrow> error + (string \<rightharpoonup> json)) \<Rightarrow> (string \<Rightarrow> error + float64) \<Rightarrow>
   Server \<Rightarrow> string \<Rightarrow> Server \<times> error option" where
  "UnmarshalJSON json_Unmarshal ParseFloat s data =
     (case json_Unmarshal data of
        Inl err \<Rightarrow> (s, Some err)
      | Inr fields' \<Rightarrow> decode_fields ParseFloat s fields')"

section \<open>Client.GetServer and Client.CreateServer\<close>

text \<open>
  \<^verbatim>\<open>c.get(path, &server)\<close> and \<^verbatim>\<open>c.post(path, values, &server)\<close> are parameters: a
  call may update the target it is given and returns an error or none.
\<close>

definition GetServer ::
  "(string \<Rightarrow> Server \<Rightarrow> Server \<times> error option) \<Rightarrow> string \<Rightarrow> Server \<times> error option" where
  "GetServer get id' =
     (case get (''server/list?SUBID='' @ id') Server_zero of
        (server, Some err) \<Rightarrow> (Server_zero, Some err)
      | (server, None) \<Rightarrow> (server, None))"

text \<open>\<^verbatim>\<open>url.Values\<close> is \<^verbatim>\<open>map[string][]string\<close>; \<^verbatim>\<open>Add\<close> appends, \<^verbatim>\<open>Set\<close> replaces.\<close>

type_synonym Values = "string \<rightharpoonup> string list"

definition Values_Add :: "Values \<Rightarrow> string \<Rightarrow> string \<Rightarrow> Values" where
  "Values_Add v key value = v(key \<mapsto> (case v key of None \<Rightarrow> [] | Some vs \<Rightarrow> vs) @ [value])"

definition Values_Set :: "Values \<Rightarrow> string \<Rightarrow> string \<Rightarrow> Values" where
  "Values_Set v key value = v(key \<mapsto> [value])"

text \<open>\<^verbatim>\<open>base64.StdEncoding.EncodeToString\<close>: three bytes to four characters, padded with \<^verbatim>\<open>=\<close>.\<close>

definition encodeStd :: string where
  "encodeStd = ''ABCDEFGHIJKLMNOPQRSTUVWXYZabcdefghijklmnopqrstuvwxyz0123456789+/''"

fun EncodeToString :: "string \<Rightarrow> string" where
  "EncodeToString [] = []"
| "EncodeToString [a] =
     (let val = of_char a * 65536
      in [encodeStd ! (val div 262144 mod 64), encodeStd ! (val div 4096 mod 64),
          CHR ''='', CHR ''=''])"
| "EncodeToString [a, b] =
     (let val = of_char a * 65536 + of_char b * 256
      in [encodeStd ! (val div 262144 mod 64), encodeStd ! (val div 4096 mod 64),
          encodeStd ! (val div 64 mod 64), CHR ''=''])"
| "EncodeToString (a # b # c # src) =
     (let val = of_char a * 65536 + of_char b * 256 + of_char c
      in [encodeStd ! (val div 262144 mod 64), encodeStd ! (val div 4096 mod 64),
          encodeStd ! (val div 64 mod 64), encodeStd ! (val mod 64)]) @ EncodeToString src"

text \<open>Lines 212 to 263: the form parameters of the request.\<close>

definition CreateServer_values ::
  "string \<Rightarrow> int \<Rightarrow> int \<Rightarrow> int \<Rightarrow> ServerOptions option \<Rightarrow> Values" where
  "CreateServer_values name regionID planID osID options =
     (let values = [''label'' \<mapsto> [name],
                    ''DCID'' \<mapsto> [Sprintf_int regionID],
                    ''VPSPLANID'' \<mapsto> [Sprintf_int planID],
                    ''OSID'' \<mapsto> [Sprintf_int osID]]
      in case options of
           None \<Rightarrow> values
         | Some options \<Rightarrow>
             let values = (if IPXEChainURL options \<noteq> []
                           then Values_Add values ''ipxe_chain_url'' (IPXEChainURL options)
                           else values);
                 values = (if ISO options \<noteq> 0
                           then Values_Add values ''ISOID'' (Sprintf_int (ISO options))
                           else values);
                 values = (if Script options \<noteq> 0
                           then Values_Add values ''SCRIPTID'' (Sprintf_int (Script options))
                           else values);
                 values = (if UserData options \<noteq> []
                           then Values_Add values ''userdata'' (EncodeToString (UserData options))
                           else values);
                 values = (if Snapshot options \<noteq> []
                           then Values_Add values ''SNAPSHOTID'' (Snapshot options)
                           else values);
                 values = (if SSHKey options \<noteq> []
                           then Values_Add values ''SSHKEYID'' (SSHKey options)
                           else values);
                 values = Values_Add values ''enable_ipv6'' ''no'';
                 values = (if IPV6 options then Values_Set values ''enable_ipv6'' ''yes''
                           else values);
                 values = Values_Add values ''enable_private_network'' ''no'';
                 values = (if PrivateNetworking options
                           then Values_Set values ''enable_private_network'' ''yes''
                           else values);
                 values = Values_Add values ''auto_backups'' ''no'';
                 values = (if OptAutoBackups options then Values_Set values ''auto_backups'' ''yes''
                           else values);
                 values = Values_Add values ''notify_activate'' ''yes'';
                 values = (if DontNotifyOnActivate options
                           then Values_Set values ''notify_activate'' ''no''
                           else values)
             in values)"

definition CreateServer ::
  "(string \<Rightarrow> Values \<Rightarrow> Server \<Rightarrow> Server \<times> error option) \<Rightarrow>
   string \<Rightarrow> int \<Rightarrow> int \<Rightarrow> int \<Rightarrow> ServerOptions option \<Rightarrow> Server \<times> error option" where
  "CreateServer post name regionID planID osID options =
     (case post ''server/create'' (CreateServer_values name regionID planID osID options)
             Server_zero of
        (server, Some err) \<Rightarrow> (Server_zero, Some err)
      | (server, None) \<Rightarrow>
          (server\<lparr>Name := name, RegionID := regionID, PlanID := planID\<rparr>, None))"

section \<open>Client.BandwidthOfServer\<close>

text \<open>
  A record of the result is a \<^verbatim>\<open>map[string]string\<close>; reading a missing key of a Go map
  gives the zero value. \<^verbatim>\<open>b[0]\<close> and \<^verbatim>\<open>b[1]\<close> panic when the row is too short.
\<close>

type_synonym bMap = "string \<rightharpoonup> string"

datatype panic = IndexOutOfRange

definition index :: "string list \<Rightarrow> nat \<Rightarrow> panic + string" where
  "index b i = (if i < length b then Inr (b ! i) else Inl IndexOutOfRange)"

definition map_get :: "bMap \<Rightarrow> string \<Rightarrow> string" where
  "map_get m key = (case m key of None \<Rightarrow> [] | Some v \<Rightarrow> v)"

text \<open>Lines 404 to 409: one record per incoming row, appended in order.\<close>

fun parse_incoming :: "string list list \<Rightarrow> bMap list \<Rightarrow> panic + bMap list" where
  "parse_incoming [] bandwidth = Inr bandwidth"
| "parse_incoming (b # bs) bandwidth =
     (case index b 0 of
        Inl p \<Rightarrow> Inl p
      | Inr date \<Rightarrow>
          (case index b 1 of
             Inl p \<Rightarrow> Inl p
           | Inr incoming \<Rightarrow>
               parse_incoming bs
                 (bandwidth @ [Map.empty(''date'' \<mapsto> date, ''incoming'' \<mapsto> incoming)])))"

text \<open>
  Lines 413 to 418: the scan of the records for one outgoing row \<^verbatim>\<open>b\<close>, which stops at
  the first record of the same date.
\<close>

fun patch_outgoing :: "bMap list \<Rightarrow> string list \<Rightarrow> panic + bMap list" where
  "patch_outgoing [] b = Inr []"
| "patch_outgoing (r # rs) b =
     (case index b 0 of
        Inl p \<Rightarrow> Inl p
      | Inr date \<Rightarrow>
          if map_get r ''date'' = date then
            (case index b 1 of
               Inl p \<Rightarrow> Inl p
             | Inr outgoing \<Rightarrow> Inr (r(''outgoing'' \<mapsto> outgoing) # rs))
          else
            (case patch_outgoing rs b of
               Inl p \<Rightarrow> Inl p
             | Inr rs' \<Rightarrow> Inr (r # rs')))"

text \<open>Lines 412 to 419: the loop over the outgoing rows.\<close>

fun parse_outgoing :: "string list list \<Rightarrow> bMap list \<Rightarrow> panic + bMap list" where
  "parse_outgoing [] bandwidth = Inr bandwidth"
| "parse_outgoing (b # bs) bandwidth =
     (case patch_outgoing bandwidth b of
        Inl p \<Rightarrow> Inl p
      | Inr bandwidth' \<Rightarrow> parse_outgoing bs bandwidth')"

text \<open>
  The method: \<^verbatim>\<open>c.get(path, &bandwidthMap)\<close> is a parameter returning the decoded
  \<^verbatim>\<open>map[string][][]string\<close> or an error; a missing key reads as the nil slice.
\<close>

definition series :: "(string \<rightharpoonup> string list list) \<Rightarrow> string \<Rightarrow> string list list" where
  "series bandwidthMap key = (case bandwidthMap key of None \<Rightarrow> [] | Some rows \<Rightarrow> rows)"

definition BandwidthOfServer ::
  "(string \<Rightarrow> error + (string \<rightharpoonup> string list list)) \<Rightarrow> string \<Rightarrow>
   panic + (bMap list \<times> error option)" where
  "BandwidthOfServer get id' =
     (case get (''server/bandwidth?SUBID='' @ id') of
        Inl err \<Rightarrow> Inr ([], Some err)
      | Inr bandwidthMap \<Rightarrow>
          (case parse_incoming (series bandwidthMap ''incoming_bytes'') [] of
             Inl p \<Rightarrow> Inl p
           | Inr bandwidth \<Rightarrow>
               (case parse_outgoing (series bandwidthMap ''outgoing_bytes'') bandwidth of
                  Inl p \<Rightarrow> Inl p
                | Inr bandwidth' \<Rightarrow> Inr (bandwidth', None))))"

section \<open>What the statements speak of\<close>

text \<open>
  The keys of the payload with the fields they are decoded into, as the assignments of
  \<^verbatim>\<open>UnmarshalJSON\<close> pair them: the integer fields, the floating-point fields and the
  string fields.
\<close>

definition int_fields :: "(string \<times> (Server \<Rightarrow> int)) list" where
  "int_fields = [(''vcpu_count'', VCpus), (''DCID'', RegionID), (''VPSPLANID'', PlanID)]"

definition float_fields :: "(string \<times> (Server \<Rightarrow> float64)) list" where
  "float_fields =
     [(''pending_charges'', PendingCharges), (''current_bandwidth_gb'', CurrentBandwidth),
      (''allowed_bandwidth_gb'', AllowedBandwidth)]"

definition string_fields :: "(string \<times> (Server \<Rightarrow> string)) list" where
  "string_fields =
     [(''SUBID'', ID), (''label'', Name), (''os'', OS), (''ram'', RAM), (''disk'', Disk),
      (''main_ip'', MainIP), (''location'', Location),
      (''default_password'', DefaultPassword), (''date_created'', Created),
      (''status'', Status), (''cost_per_month'', Cost), (''netmask_v4'', NetmaskV4),
      (''gateway_v4'', GatewayV4), (''power_status'', PowerStatus),
      (''server_state'', ServerState), (''internal_ip'', InternalIP), (''kvm_url'', KVMUrl),
      (''auto_backups'', AutoBackups), (''tag'', Tag)]"

text \<open>The objects among the elements of an array, in order.\<close>

fun objects :: "json list \<Rightarrow> (string \<times> json) list list" where
  "objects [] = []"
| "objects (JObject kvs # js) = kvs # objects js"
| "objects (_ # js) = objects js"

text \<open>
  The six conversions of \<^verbatim>\<open>UnmarshalJSON\<close> in the order of the source, each with its
  value dropped, and the error of the first one that fails.
\<close>

definition coercions :: "(string \<Rightarrow> error + float64) \<Rightarrow> (string \<rightharpoonup> json) \<Rightarrow> (error + unit) list" where
  "coercions ParseFloat fields' =
     map (\<lambda>key. map_sum id (\<lambda>v. ()) (ParseInt (numeric_text (fields' key)))) (map fst int_fields) @
     map (\<lambda>key. map_sum id (\<lambda>v. ()) (ParseFloat (numeric_text (fields' key))))
       (map fst float_fields)"

fun first_error :: "(error + unit) list \<Rightarrow> error option" where
  "first_error [] = None"
| "first_error (Inl e # rs) = Some e"
| "first_error (Inr u # rs) = first_error rs"

text \<open>
  The records the statements below speak of: the one the first loop appends for an incoming
  row, and that record once an outgoing row has patched it.
\<close>

definition incoming_record :: "string list \<Rightarrow> bMap" where
  "incoming_record b = [''date'' \<mapsto> b ! 0, ''incoming'' \<mapsto> b ! 1]"

definition merged_record :: "string list \<Rightarrow> string list \<Rightarrow> bMap" where
  "merged_record i out =
     [''date'' \<mapsto> i ! 0, ''incoming'' \<mapsto> i ! 1, ''outgoing'' \<mapsto> out ! 1]"

section \<open>Example inputs\<close>

text \<open>
  An instance of the \<^verbatim>\<open>ParseFloat\<close> parameter for the examples: it reads the two
  texts the examples use and rejects every other text.
\<close>

definition ParseFloat_ex :: "string \<Rightarrow> error + float64" where
  "ParseFloat_ex s =
     (if s = ''0'' then Inr float64_zero
      else if s = ''2.5'' then Inr (Finite False \<lparr>d = ''25'', dp = 1\<rparr>)
      else Inl (NumError ''ParseFloat'' s ErrSyntax))"

text \<open>
  A response with \<^verbatim>\<open>SUBID\<close> 576965 in region 9 and the number 2.5 in a string field,
  and a transport that decodes it into the target.
\<close>

definition post_payload :: "string \<rightharpoonup> json" where
  "post_payload =
     [''SUBID'' \<mapsto> JString ''576965'', ''DCID'' \<mapsto> JString ''9'',
      ''ram'' \<mapsto> JNumber (Finite False \<lparr>d = ''25'', dp = 1\<rparr>)]"

definition post_ex :: "string \<Rightarrow> Values \<Rightarrow> Server \<Rightarrow> Server \<times> error option" where
  "post_ex path values target = decode_fields ParseFloat_ex target post_payload"

text \<open>The bandwidth response of the specification's example, and one with a repeated date.\<close>

definition bandwidthMap_ex :: "string \<rightharpoonup> string list list" where
  "bandwidthMap_ex =
     [''incoming_bytes'' \<mapsto> [[''2020-01-01'', ''100''], [''2020-01-02'', ''200'']],
      ''outgoing_bytes'' \<mapsto> [[''2020-01-02'', ''50''], [''2020-01-03'', ''10'']]]"

definition bandwidthMap_aligned :: "string \<rightharpoonup> string list list" where
  "bandwidthMap_aligned =
     [''incoming_bytes'' \<mapsto> [[''2020-01-01'', ''100''], [''2020-01-02'', ''200'']],
      ''outgoing_bytes'' \<mapsto> [[''2020-01-01'', ''30''], [''2020-01-02'', ''50'']]]"

definition bandwidthMap_repeated :: "string \<rightharpoonup> string list list" where
  "bandwidthMap_repeated =
     [''incoming_bytes'' \<mapsto> [[''2020-01-01'', ''100''], [''2020-01-01'', ''200'']],
      ''outgoing_bytes'' \<mapsto> [[''2020-01-01'', ''30''], [''2020-01-01'', ''50'']]]"

text \<open>Options with user data, a startup script, an SSH key, IPv6 and no activation notice.\<close>

definition options_ex :: ServerOptions where
  "options_ex =
     \<lparr>IPXEChainURL = [], ISO = 0, Script = 12, UserData = ''Man'', Snapshot = [],
      SSHKey = ''k'', IPV6 = True, PrivateNetworking = False, OptAutoBackups = False,
      DontNotifyOnActivate = True\<rparr>"

text \<open>
  The payload \<^verbatim>\<open>{"vcpu_count": 2, "DCID": "7", "pending_charges": 2.5}\<close> as
  \<^verbatim>\<open>json.Unmarshal\<close> decodes it, and payloads with a text or a number that no integer
  conversion accepts.
\<close>

definition payload_ex :: "string \<rightharpoonup> json" where
  "payload_ex =
     [''vcpu_count'' \<mapsto> JNumber (Finite False \<lparr>d = ''2'', dp = 1\<rparr>),
      ''DCID'' \<mapsto> JString ''7'',
      ''pending_charges'' \<mapsto> JNumber (Finite False \<lparr>d = ''25'', dp = 1\<rparr>)]"

definition payload_fraction :: "string \<rightharpoonup> json" where
  "payload_fraction = [''vcpu_count'' \<mapsto> JNumber (Finite False \<lparr>d = ''25'', dp = 1\<rparr>)]"

definition payload_large :: "string \<rightharpoonup> json" where
  "payload_large = [''DCID'' \<mapsto> JNumber (Finite False \<lparr>d = ''1'', dp = 8\<rparr>)]"

text \<open>Payloads with a text that is no number, and with an empty text, in a numeric field.\<close>

definition payload_abc_vcpu :: "string \<rightharpoonup> json" where
  "payload_abc_vcpu = [''vcpu_count'' \<mapsto> JString ''abc'']"

definition payload_abc_region :: "string \<rightharpoonup> json" where
  "payload_abc_region = [''DCID'' \<mapsto> JString ''abc'']"

definition payload_empty_text :: "string \<rightharpoonup> json" where
  "payload_empty_text = [''vcpu_count'' \<mapsto> JString []]"

definition payload_partial :: "string \<rightharpoonup> json" where
  "payload_partial =
     [''vcpu_count'' \<mapsto> JNumber (Finite False \<lparr>d = ''2'', dp = 1\<rparr>),
      ''DCID'' \<mapsto> JString ''abc'']"

text \<open>A payload with an array of networks: an object and a null.\<close>

definition payload_networks :: "string \<rightharpoonup> json" where
  "payload_networks =
     [''v6_networks'' \<mapsto>
        JArray [JObject [(''v6_network'', JString ''2001:db8::''),
                         (''v6_network_size'', JNumber (Finite False \<lparr>d = ''64'', dp = 2\<rparr>))],
                JNull]]"

text \<open>A transport that received a body and decodes it into the target with \<^verbatim>\<open>UnmarshalJSON\<close>.\<close>

definition get_ex :: "(string \<rightharpoonup> json) \<Rightarrow> string \<Rightarrow> Server \<Rightarrow> Server \<times> error option" where
  "get_ex payload path target = UnmarshalJSON (\<lambda>data. Inr payload) ParseFloat_ex target []"

text \<open>An entity that already holds one network descriptor, as a decode target.\<close>

definition Server_with_network :: Server where
  "Server_with_network =
     Server_zero\<lparr>V6Networks :=
       [\<lparr>Network = ''2001:db8::'', V6MainIP = ''2001:db8::1'', NetworkSize = ''64''\<rparr>]\<rparr>"

text \<open>A transport that fails with the values it was given under one key as its message.\<close>

definition post_echo :: "string \<Rightarrow> string \<Rightarrow> Values \<Rightarrow> Server \<Rightarrow> Server \<times> error option" where
  "post_echo key path values target =
     (target, Some (OtherError (case values key of None \<Rightarrow> ''(none)'' | Some vs \<Rightarrow> concat vs)))"

text \<open>Payloads with the text and with the number one million in an integer field.\<close>

definition payload_million_text :: "string \<rightharpoonup> json" where
  "payload_million_text = [''vcpu_count'' \<mapsto> JString ''1000000'']"

definition payload_million :: "string \<rightharpoonup> json" where
  "payload_million = [''vcpu_count'' \<mapsto> JNumber (Finite False \<lparr>d = ''1'', dp = 7\<rparr>)]"

section \<open>ParseInt on concrete texts\<close>

lemma ParseInt_0: "ParseInt ''0'' = Inr 0"
  by (simp add: ParseInt_def ParseUint_def is_digit_def digit_val_def)

lemma ParseInt_9: "ParseInt ''9'' = Inr 9"
  by (simp add: ParseInt_def ParseUint_def is_digit_def digit_val_def)

lemma digit_char_simps:
  "digit_char 0 = CHR ''0''" "digit_char 1 = CHR ''1''" "digit_char 2 = CHR ''2''"
  "digit_char 3 = CHR ''3''" "digit_char 4 = CHR ''4''" "digit_char 5 = CHR ''5''"
  "digit_char 6 = CHR ''6''" "digit_char 7 = CHR ''7''" "digit_char 8 = CHR ''8''"
  "digit_char 9 = CHR ''9''" "digit_char (Suc 0) = CHR ''1''"
  unfolding digit_char_def char_of_eq_iff by simp_all

section \<open>CreateServer: the returned entity\<close>

text \<open>
  C9. When \<^verbatim>\<open>CreateServer\<close> succeeds, the request succeeded with some decoded entity,
  and the entity returned is that one with \<^verbatim>\<open>Name\<close>, \<^verbatim>\<open>RegionID\<close> and \<^verbatim>\<open>PlanID\<close>
  overwritten by the caller's arguments: every other field is the decoded one.
\<close>

theorem CreateServer_overrides:
  assumes "snd (CreateServer post name regionID planID osID options) = None"
  shows "\<exists>decoded.
           post ''server/create'' (CreateServer_values name regionID planID osID options)
             Server_zero = (decoded, None) \<and>
           fst (CreateServer post name regionID planID osID options) =
             decoded\<lparr>Name := name, RegionID := regionID, PlanID := planID\<rparr>"
  using assms by (auto simp: CreateServer_def split: prod.splits option.splits)

theorem CreateServer_overrides_witness:
  "snd (CreateServer post_ex ''web'' 1 201 127 None) = None \<and>
   (\<exists>decoded. post_ex ''server/create'' (CreateServer_values ''web'' 1 201 127 None) Server_zero
        = (decoded, None) \<and> RegionID decoded = 9 \<and> ID decoded = ''576965'' \<and>
      fst (CreateServer post_ex ''web'' 1 201 127 None) =
        decoded\<lparr>Name := ''web'', RegionID := 1, PlanID := 201\<rparr>)"
proof -
  have h: "snd (CreateServer post_ex ''web'' 1 201 127 None) = None"
    by (simp add: CreateServer_def post_ex_def post_payload_def decode_fields_def numeric_text_def
        Sprintf_v_def ParseInt_0 ParseInt_9 ParseFloat_ex_def)
  from CreateServer_overrides [OF h] obtain decoded where
    d: "post_ex ''server/create'' (CreateServer_values ''web'' 1 201 127 None) Server_zero
          = (decoded, None)"
    and r: "fst (CreateServer post_ex ''web'' 1 201 127 None) =
        decoded\<lparr>Name := ''web'', RegionID := 1, PlanID := 201\<rparr>" by blast
  from d have "RegionID decoded = 9 \<and> ID decoded = ''576965''"
    by (auto simp add: post_ex_def post_payload_def decode_fields_def numeric_text_def Sprintf_v_def
        ParseInt_0 ParseInt_9 ParseFloat_ex_def decode_strings_def)
  with h d r show ?thesis by blast
qed

section \<open>BandwidthOfServer: the two loops\<close>

lemma parse_incoming_rows:
  "\<forall>b\<in>set rows. 2 \<le> length b \<Longrightarrow>
   parse_incoming rows bandwidth = Inr (bandwidth @ map incoming_record rows)"
  by (induction rows arbitrary: bandwidth) (auto simp: index_def incoming_record_def)

lemma parse_incoming_length:
  "parse_incoming rows bandwidth = Inr bw \<Longrightarrow> length bw = length bandwidth + length rows"
  by (induction rows arbitrary: bandwidth) (auto split: sum.splits)

lemma parse_incoming_dates:
  "parse_incoming rows bandwidth = Inr bw \<Longrightarrow>
   map (\<lambda>r. map_get r ''date'') bw =
   map (\<lambda>r. map_get r ''date'') bandwidth @ map (\<lambda>b. b ! 0) rows"
  by (induction rows arbitrary: bandwidth) (auto simp: index_def map_get_def split: sum.splits if_splits)

lemma parse_incoming_index:
  "parse_incoming rows bandwidth = Inr bw \<Longrightarrow> b \<in> set rows \<Longrightarrow> index b 0 = Inr (b ! 0)"
  by (induction rows arbitrary: bandwidth) (auto simp: index_def split: sum.splits if_splits)

lemma patch_outgoing_dates:
  "patch_outgoing bandwidth b = Inr bw \<Longrightarrow>
   map (\<lambda>r. map_get r ''date'') bw = map (\<lambda>r. map_get r ''date'') bandwidth"
  by (induction bandwidth arbitrary: bw) (auto simp: map_get_def split: sum.splits if_splits)

lemma parse_outgoing_dates:
  "parse_outgoing rows bandwidth = Inr bw \<Longrightarrow>
   map (\<lambda>r. map_get r ''date'') bw = map (\<lambda>r. map_get r ''date'') bandwidth"
  by (induction rows arbitrary: bandwidth) (auto split: sum.splits dest: patch_outgoing_dates)

lemma patch_outgoing_no_match:
  "\<forall>r\<in>set bandwidth. map_get r ''date'' \<noteq> date \<Longrightarrow>
   patch_outgoing bandwidth (date # rest) = Inr bandwidth"
  by (induction bandwidth) (auto simp: index_def)

lemma parse_outgoing_append:
  "parse_outgoing (xs @ ys) bandwidth =
   (case parse_outgoing xs bandwidth of Inl p \<Rightarrow> Inl p | Inr bw \<Rightarrow> parse_outgoing ys bw)"
  by (induction xs arbitrary: bandwidth) (auto split: sum.splits)

lemma map_eq_avoids:
  assumes "map f xs = map f ys" and "\<forall>y\<in>set ys. f y \<noteq> a"
  shows "\<forall>x\<in>set xs. f x \<noteq> a"
proof
  fix x
  assume "x \<in> set xs"
  then have "f x \<in> set (map f xs)" by simp
  then have "f x \<in> set (map f ys)" using assms(1) by simp
  then obtain y where "y \<in> set ys" and "f y = f x" by auto
  with assms(2) show "f x \<noteq> a" by auto
qed

lemma parse_outgoing_drop:
  assumes "\<forall>r\<in>set bandwidth. map_get r ''date'' \<noteq> date"
  shows "parse_outgoing (outs1 @ (date # rest) # outs2) bandwidth =
         parse_outgoing (outs1 @ outs2) bandwidth"
proof (cases "parse_outgoing outs1 bandwidth")
  case (Inl p)
  then show ?thesis by (simp add: parse_outgoing_append)
next
  case (Inr bw)
  have "\<forall>r\<in>set bw. map_get r ''date'' \<noteq> date"
    by (rule map_eq_avoids [OF parse_outgoing_dates [OF Inr] assms])
  then have "patch_outgoing bw (date # rest) = Inr bw"
    by (rule patch_outgoing_no_match)
  with Inr show ?thesis by (simp add: parse_outgoing_append)
qed

lemma patch_outgoing_first:
  "\<forall>r\<in>set pre. map_get r ''date'' \<noteq> b ! 0 \<Longrightarrow> map_get r ''date'' = b ! 0 \<Longrightarrow>
   2 \<le> length b \<Longrightarrow>
   patch_outgoing (pre @ r # post) b = Inr (pre @ r(''outgoing'' \<mapsto> b ! 1) # post)"
  by (induction pre) (auto simp: index_def)

lemma parse_outgoing_aligned:
  "\<forall>b\<in>set outs. 2 \<le> length b \<Longrightarrow>
   map (\<lambda>b. b ! 0) ins = map (\<lambda>b. b ! 0) outs \<Longrightarrow>
   distinct (map (\<lambda>b. b ! 0) outs) \<Longrightarrow>
   \<forall>r\<in>set pre. map_get r ''date'' \<notin> set (map (\<lambda>b. b ! 0) outs) \<Longrightarrow>
   parse_outgoing outs (pre @ map incoming_record ins) =
   Inr (pre @ map2 merged_record ins outs)"
proof (induction outs arbitrary: ins pre)
  case Nil
  then show ?case by simp
next
  case (Cons out outs)
  from Cons.prems(2) obtain i ins' where ins: "ins = i # ins'"
    and i0: "i ! 0 = out ! 0" and rest: "map (\<lambda>b. b ! 0) ins' = map (\<lambda>b. b ! 0) outs"
    by (cases ins) auto
  have m: "map_get (incoming_record i) ''date'' = out ! 0"
    by (simp add: incoming_record_def map_get_def i0)
  have p: "\<forall>r\<in>set pre. map_get r ''date'' \<noteq> out ! 0"
    using Cons.prems(4) by auto
  have len: "2 \<le> length out" using Cons.prems(1) by simp
  have step: "patch_outgoing (pre @ incoming_record i # map incoming_record ins') out =
        Inr (pre @ (incoming_record i)(''outgoing'' \<mapsto> out ! 1) # map incoming_record ins')"
    by (rule patch_outgoing_first [OF p m len])
  have mr: "(incoming_record i)(''outgoing'' \<mapsto> out ! 1) = merged_record i out"
    by (simp add: incoming_record_def merged_record_def del: One_nat_def)
  have d: "map_get (merged_record i out) ''date'' = out ! 0"
    by (simp add: merged_record_def map_get_def i0)
  have pre': "\<forall>r\<in>set (pre @ [merged_record i out]).
                map_get r ''date'' \<notin> set (map (\<lambda>b. b ! 0) outs)"
    using Cons.prems(3,4) d by auto
  have "parse_outgoing outs ((pre @ [merged_record i out]) @ map incoming_record ins') =
        Inr ((pre @ [merged_record i out]) @ map2 merged_record ins' outs)"
    using Cons.IH [OF _ rest _ pre'] Cons.prems(1,3) by simp
  then show ?case using step by (simp add: ins mr del: One_nat_def)
qed

lemma BandwidthOfServer_ex:
  "BandwidthOfServer (\<lambda>path. Inr bandwidthMap_ex) ''576965'' =
     Inr ([[''date'' \<mapsto> ''2020-01-01'', ''incoming'' \<mapsto> ''100''],
           [''date'' \<mapsto> ''2020-01-02'', ''incoming'' \<mapsto> ''200'', ''outgoing'' \<mapsto> ''50'']], None)"
  by (simp add: BandwidthOfServer_def bandwidthMap_ex_def series_def index_def map_get_def)

section \<open>BandwidthOfServer: dates of the outgoing series alone\<close>

text \<open>
  C3. An outgoing row whose date no incoming row has leaves no trace: the result is the
  one the call gives without that row, it has as many records as there are incoming rows
  (none is made for the outgoing row), and no record of it carries that date.
\<close>

theorem BandwidthOfServer_outgoing_only:
  assumes g: "get (''server/bandwidth?SUBID='' @ id') = Inr bandwidthMap"
    and o: "bandwidthMap ''outgoing_bytes'' = Some (outs1 @ (date # rest) # outs2)"
    and i: "\<forall>b\<in>set (series bandwidthMap ''incoming_bytes''). index b 0 \<noteq> Inr date"
  shows "BandwidthOfServer get id' =
           BandwidthOfServer (\<lambda>path. Inr (bandwidthMap(''outgoing_bytes'' \<mapsto> outs1 @ outs2))) id' \<and>
         (\<forall>bandwidth err. BandwidthOfServer get id' = Inr (bandwidth, err) \<longrightarrow>
            length bandwidth = length (series bandwidthMap ''incoming_bytes'') \<and>
            (\<forall>r\<in>set bandwidth. map_get r ''date'' \<noteq> date))"
proof (cases "parse_incoming (series bandwidthMap ''incoming_bytes'') []")
  case (Inl p)
  then show ?thesis using g by (simp add: BandwidthOfServer_def series_def)
next
  case (Inr bw)
  have dates: "map (\<lambda>r. map_get r ''date'') bw =
               map (\<lambda>b. b ! 0) (series bandwidthMap ''incoming_bytes'')"
    using parse_incoming_dates [OF Inr] by simp
  have no: "\<forall>r\<in>set bw. map_get r ''date'' \<noteq> date"
  proof
    fix r assume "r \<in> set bw"
    then have "map_get r ''date'' \<in> set (map (\<lambda>b. b ! 0) (series bandwidthMap ''incoming_bytes''))"
      using dates by (metis image_eqI set_map)
    then obtain b where b: "b \<in> set (series bandwidthMap ''incoming_bytes'')"
      and e: "b ! 0 = map_get r ''date''" by auto
    from parse_incoming_index [OF Inr b] i b e show "map_get r ''date'' \<noteq> date" by auto
  qed
  have drop: "parse_outgoing (outs1 @ (date # rest) # outs2) bw = parse_outgoing (outs1 @ outs2) bw"
    by (rule parse_outgoing_drop [OF no])
  have first: "BandwidthOfServer get id' =
      BandwidthOfServer (\<lambda>path. Inr (bandwidthMap(''outgoing_bytes'' \<mapsto> outs1 @ outs2))) id'"
    using g o Inr drop by (simp add: BandwidthOfServer_def series_def)
  have second: "length bandwidth = length (series bandwidthMap ''incoming_bytes'') \<and>
            (\<forall>r\<in>set bandwidth. map_get r ''date'' \<noteq> date)"
    if r: "BandwidthOfServer get id' = Inr (bandwidth, err)" for bandwidth err
  proof -
    from r g o Inr have po: "parse_outgoing (outs1 @ (date # rest) # outs2) bw = Inr bandwidth"
      by (auto simp: BandwidthOfServer_def series_def split: sum.splits)
    have d: "map (\<lambda>r. map_get r ''date'') bandwidth = map (\<lambda>r. map_get r ''date'') bw"
      by (rule parse_outgoing_dates [OF po])
    have "length bandwidth = length bw" using d by (rule map_eq_imp_length_eq)
    moreover have "length bw = length (series bandwidthMap ''incoming_bytes'')"
      using parse_incoming_length [OF Inr] by simp
    moreover have "\<forall>r\<in>set bandwidth. map_get r ''date'' \<noteq> date"
      by (rule map_eq_avoids [OF d no])
    ultimately show ?thesis by simp
  qed
  from first second show ?thesis by blast
qed

theorem BandwidthOfServer_outgoing_only_witness:
  "bandwidthMap_ex ''outgoing_bytes'' = Some ([[''2020-01-02'', ''50'']] @ (''2020-01-03'' # [''10'']) # []) \<and>
   list_all (\<lambda>b. index b 0 \<noteq> Inr ''2020-01-03'') (series bandwidthMap_ex ''incoming_bytes'') \<and>
   BandwidthOfServer (\<lambda>path. Inr bandwidthMap_ex) ''576965'' =
     BandwidthOfServer (\<lambda>path. Inr (bandwidthMap_ex(''outgoing_bytes'' \<mapsto> [[''2020-01-02'', ''50'']]))) ''576965'' \<and>
   BandwidthOfServer (\<lambda>path. Inr bandwidthMap_ex) ''576965'' =
     Inr ([[''date'' \<mapsto> ''2020-01-01'', ''incoming'' \<mapsto> ''100''],
           [''date'' \<mapsto> ''2020-01-02'', ''incoming'' \<mapsto> ''200'', ''outgoing'' \<mapsto> ''50'']], None) \<and>
   length (fst (projr (BandwidthOfServer (\<lambda>path. Inr bandwidthMap_ex) ''576965''))) = 2 \<and>
   list_all (\<lambda>r. map_get r ''date'' \<noteq> ''2020-01-03'')
     (fst (projr (BandwidthOfServer (\<lambda>path. Inr bandwidthMap_ex) ''576965'')))"
proof -
  have g: "(\<lambda>path. Inr bandwidthMap_ex) (''server/bandwidth?SUBID='' @ ''576965'') = Inr bandwidthMap_ex"
    by simp
  have o: "bandwidthMap_ex ''outgoing_bytes'' =
      Some ([[''2020-01-02'', ''50'']] @ (''2020-01-03'' # [''10'']) # [])"
    by (simp add: bandwidthMap_ex_def)
  have i: "\<forall>b\<in>set (series bandwidthMap_ex ''incoming_bytes''). index b 0 \<noteq> Inr ''2020-01-03''"
    by (simp add: bandwidthMap_ex_def series_def index_def)
  note t = BandwidthOfServer_outgoing_only
    [of "\<lambda>path. Inr bandwidthMap_ex" "''576965''" bandwidthMap_ex, OF g o i]
  from t have a: "BandwidthOfServer (\<lambda>path. Inr bandwidthMap_ex) ''576965'' =
     BandwidthOfServer (\<lambda>path. Inr (bandwidthMap_ex(''outgoing_bytes'' \<mapsto> [[''2020-01-02'', ''50'']]))) ''576965''"
    by simp
  from t BandwidthOfServer_ex have b: "length (fst (projr (BandwidthOfServer (\<lambda>path. Inr bandwidthMap_ex) ''576965''))) = 2 \<and>
   list_all (\<lambda>r. map_get r ''date'' \<noteq> ''2020-01-03'')
     (fst (projr (BandwidthOfServer (\<lambda>path. Inr bandwidthMap_ex) ''576965'')))"
    by (simp add: series_def bandwidthMap_ex_def list_all_iff map_get_def)
  from o i a b BandwidthOfServer_ex show ?thesis by (simp add: list_all_iff)
qed

section \<open>BandwidthOfServer: series with the same dates\<close>

text \<open>
  C4, as stated, fails when a date occurs twice: both series have the dates
  2020-01-01, 2020-01-01, and the two outgoing rows patch the first record one after the
  other, so the second record has no outgoing value.
\<close>

theorem BandwidthOfServer_repeated_date:
  "map (\<lambda>b. b ! 0) (series bandwidthMap_repeated ''incoming_bytes'') =
     map (\<lambda>b. b ! 0) (series bandwidthMap_repeated ''outgoing_bytes'') \<and>
   BandwidthOfServer (\<lambda>path. Inr bandwidthMap_repeated) ''576965'' =
     Inr ([[''date'' \<mapsto> ''2020-01-01'', ''incoming'' \<mapsto> ''100'', ''outgoing'' \<mapsto> ''50''],
           [''date'' \<mapsto> ''2020-01-01'', ''incoming'' \<mapsto> ''200'']], None) \<and>
   [''date'' \<mapsto> ''2020-01-01'', ''incoming'' \<mapsto> ''200''] ''outgoing'' = None"
  by (simp add: BandwidthOfServer_def bandwidthMap_repeated_def series_def index_def map_get_def)

text \<open>
  C4, amended. When every row has a date and a value, the two series have the same dates in
  the same order and no date occurs twice, the result is one record per date, in the
  order of the incoming series, with the incoming and the outgoing value of that date.
  In every case an outgoing row patches the first record of its date and no other.
\<close>

theorem BandwidthOfServer_aligned:
  assumes g: "get (''server/bandwidth?SUBID='' @ id') = Inr bandwidthMap"
    and li: "\<forall>b\<in>set (series bandwidthMap ''incoming_bytes''). 2 \<le> length b"
    and lo: "\<forall>b\<in>set (series bandwidthMap ''outgoing_bytes''). 2 \<le> length b"
    and same: "map (\<lambda>b. b ! 0) (series bandwidthMap ''incoming_bytes'') =
               map (\<lambda>b. b ! 0) (series bandwidthMap ''outgoing_bytes'')"
    and dist: "distinct (map (\<lambda>b. b ! 0) (series bandwidthMap ''incoming_bytes''))"
  shows "BandwidthOfServer get id' =
           Inr (map2 merged_record (series bandwidthMap ''incoming_bytes'')
                  (series bandwidthMap ''outgoing_bytes''), None) \<and>
         (\<forall>pre r post b.
            (\<forall>r'\<in>set pre. map_get r' ''date'' \<noteq> b ! 0) \<and> map_get r ''date'' = b ! 0 \<and>
            2 \<le> length b \<longrightarrow>
            patch_outgoing (pre @ r # post) b = Inr (pre @ r(''outgoing'' \<mapsto> b ! 1) # post))"
proof -
  have "parse_incoming (series bandwidthMap ''incoming_bytes'') [] =
          Inr ([] @ map incoming_record (series bandwidthMap ''incoming_bytes''))"
    by (rule parse_incoming_rows [OF li])
  moreover have "parse_outgoing (series bandwidthMap ''outgoing_bytes'')
          ([] @ map incoming_record (series bandwidthMap ''incoming_bytes'')) =
        Inr ([] @ map2 merged_record (series bandwidthMap ''incoming_bytes'')
                    (series bandwidthMap ''outgoing_bytes''))"
    using dist same by (intro parse_outgoing_aligned [OF lo same]) simp_all
  ultimately have "BandwidthOfServer get id' =
           Inr (map2 merged_record (series bandwidthMap ''incoming_bytes'')
                  (series bandwidthMap ''outgoing_bytes''), None)"
    using g by (simp add: BandwidthOfServer_def)
  moreover have "\<forall>pre r post b.
            (\<forall>r'\<in>set pre. map_get r' ''date'' \<noteq> b ! 0) \<and> map_get r ''date'' = b ! 0 \<and>
            2 \<le> length b \<longrightarrow>
            patch_outgoing (pre @ r # post) b = Inr (pre @ r(''outgoing'' \<mapsto> b ! 1) # post)"
    using patch_outgoing_first by blast
  ultimately show ?thesis by blast
qed

theorem BandwidthOfServer_aligned_witness:
  "list_all (\<lambda>b. 2 \<le> length b) (series bandwidthMap_aligned ''incoming_bytes'') \<and>
   list_all (\<lambda>b. 2 \<le> length b) (series bandwidthMap_aligned ''outgoing_bytes'') \<and>
   map (\<lambda>b. b ! 0) (series bandwidthMap_aligned ''incoming_bytes'') =
     map (\<lambda>b. b ! 0) (series bandwidthMap_aligned ''outgoing_bytes'') \<and>
   distinct (map (\<lambda>b. b ! 0) (series bandwidthMap_aligned ''incoming_bytes'')) \<and>
   BandwidthOfServer (\<lambda>path. Inr bandwidthMap_aligned) ''576965'' =
     Inr ([[''date'' \<mapsto> ''2020-01-01'', ''incoming'' \<mapsto> ''100'', ''outgoing'' \<mapsto> ''30''],
           [''date'' \<mapsto> ''2020-01-02'', ''incoming'' \<mapsto> ''200'', ''outgoing'' \<mapsto> ''50'']], None) \<and>
   patch_outgoing ([[''date'' \<mapsto> ''a'']] @ [''date'' \<mapsto> ''b''] # [[''date'' \<mapsto> ''b'']]) [''b'', ''7''] =
     Inr ([[''date'' \<mapsto> ''a'']] @ [''date'' \<mapsto> ''b'', ''outgoing'' \<mapsto> ''7''] # [[''date'' \<mapsto> ''b'']])"
proof -
  have g: "(\<lambda>path. Inr bandwidthMap_aligned) (''server/bandwidth?SUBID='' @ ''576965'') =
             Inr bandwidthMap_aligned"
    by simp
  have li: "\<forall>b\<in>set (series bandwidthMap_aligned ''incoming_bytes''). 2 \<le> length b"
    by (simp add: bandwidthMap_aligned_def series_def)
  have lo: "\<forall>b\<in>set (series bandwidthMap_aligned ''outgoing_bytes''). 2 \<le> length b"
    by (simp add: bandwidthMap_aligned_def series_def)
  have same: "map (\<lambda>b. b ! 0) (series bandwidthMap_aligned ''incoming_bytes'') =
     map (\<lambda>b. b ! 0) (series bandwidthMap_aligned ''outgoing_bytes'')"
    by (simp add: bandwidthMap_aligned_def series_def)
  have dist: "distinct (map (\<lambda>b. b ! 0) (series bandwidthMap_aligned ''incoming_bytes''))"
    by (simp add: bandwidthMap_aligned_def series_def)
  note t = BandwidthOfServer_aligned
    [of "\<lambda>path. Inr bandwidthMap_aligned" "''576965''" bandwidthMap_aligned, OF g li lo same dist]
  from t have r: "BandwidthOfServer (\<lambda>path. Inr bandwidthMap_aligned) ''576965'' =
     Inr ([[''date'' \<mapsto> ''2020-01-01'', ''incoming'' \<mapsto> ''100'', ''outgoing'' \<mapsto> ''30''],
           [''date'' \<mapsto> ''2020-01-02'', ''incoming'' \<mapsto> ''200'', ''outgoing'' \<mapsto> ''50'']], None)"
    by (simp add: bandwidthMap_aligned_def series_def merged_record_def)
  from t have "(\<forall>r'\<in>set [[''date'' \<mapsto> ''a'']]. map_get r' ''date'' \<noteq> [''b'', ''7''] ! 0) \<and>
       map_get [''date'' \<mapsto> ''b''] ''date'' = [''b'', ''7''] ! 0 \<and> 2 \<le> length [''b'', ''7''] \<longrightarrow>
     patch_outgoing ([[''date'' \<mapsto> ''a'']] @ [''date'' \<mapsto> ''b''] # [[''date'' \<mapsto> ''b'']]) [''b'', ''7''] =
     Inr ([[''date'' \<mapsto> ''a'']] @ [''date'' \<mapsto> ''b'', ''outgoing'' \<mapsto> ''7''] # [[''date'' \<mapsto> ''b'']])"
    by (metis nth_Cons_0 nth_Cons_Suc One_nat_def)
  then have p: "patch_outgoing ([[''date'' \<mapsto> ''a'']] @ [''date'' \<mapsto> ''b''] # [[''date'' \<mapsto> ''b'']]) [''b'', ''7''] =
     Inr ([[''date'' \<mapsto> ''a'']] @ [''date'' \<mapsto> ''b'', ''outgoing'' \<mapsto> ''7''] # [[''date'' \<mapsto> ''b'']])"
    by (simp add: map_get_def)
  from li lo same dist r p show ?thesis by (simp only: list_all_iff simp_thms)
qed

section \<open>CreateServer: the form parameters\<close>

lemma Values_Add_apply:
  "Values_Add v key value k =
     (if k = key then Some ((case v key of None \<Rightarrow> [] | Some vs \<Rightarrow> vs) @ [value]) else v k)"
  by (simp add: Values_Add_def)

lemma Values_Set_apply:
  "Values_Set v key value k = (if k = key then Some [value] else v k)"
  by (simp add: Values_Set_def)

lemma if_fun_apply: "(if c then f else g) x = (if c then f x else g x)"
  by simp

lemmas values_simps = CreateServer_values_def Let_def if_fun_apply Values_Add_apply Values_Set_apply

text \<open>
  C8. With options given, \<^verbatim>\<open>CreateServer\<close> issues one request, to
  \<^verbatim>\<open>server/create\<close>, and its outcome is that of the request: whatever the transport
  does with the parameters it is handed decides the error returned. The request carries
  these parameters: the user data in base64 when there is any, \<^verbatim>\<open>yes\<close> or \<^verbatim>\<open>no\<close> for
  each of the three boolean options, \<^verbatim>\<open>notify_activate\<close> as \<^verbatim>\<open>yes\<close> unless the
  notice is suppressed, and no parameter for an empty or zero optional field.
\<close>

theorem CreateServer_values_options:
  "CreateServer post name regionID planID osID (Some options) =
     (case post ''server/create'' (CreateServer_values name regionID planID osID (Some options))
             Server_zero of
        (server, Some err) \<Rightarrow> (Server_zero, Some err)
      | (server, None) \<Rightarrow>
          (server\<lparr>Name := name, RegionID := regionID, PlanID := planID\<rparr>, None)) \<and>
   snd (CreateServer post name regionID planID osID (Some options)) =
     snd (post ''server/create'' (CreateServer_values name regionID planID osID (Some options))
            Server_zero) \<and>
   CreateServer post name regionID planID osID (Some options) =
     CreateServer
       (\<lambda>path values. post ''server/create''
          (CreateServer_values name regionID planID osID (Some options)))
       name regionID planID osID (Some options) \<and>
   CreateServer_values name regionID planID osID (Some options) ''userdata'' =
     (if UserData options = [] then None else Some [EncodeToString (UserData options)]) \<and>
   CreateServer_values name regionID planID osID (Some options) ''enable_ipv6'' =
     Some [if IPV6 options then ''yes'' else ''no''] \<and>
   CreateServer_values name regionID planID osID (Some options) ''enable_private_network'' =
     Some [if PrivateNetworking options then ''yes'' else ''no''] \<and>
   CreateServer_values name regionID planID osID (Some options) ''auto_backups'' =
     Some [if OptAutoBackups options then ''yes'' else ''no''] \<and>
   CreateServer_values name regionID planID osID (Some options) ''notify_activate'' =
     Some [if DontNotifyOnActivate options then ''no'' else ''yes''] \<and>
   CreateServer_values name regionID planID osID (Some options) ''ipxe_chain_url'' =
     (if IPXEChainURL options = [] then None else Some [IPXEChainURL options]) \<and>
   CreateServer_values name regionID planID osID (Some options) ''ISOID'' =
     (if ISO options = 0 then None else Some [Sprintf_int (ISO options)]) \<and>
   CreateServer_values name regionID planID osID (Some options) ''SCRIPTID'' =
     (if Script options = 0 then None else Some [Sprintf_int (Script options)]) \<and>
   CreateServer_values name regionID planID osID (Some options) ''SNAPSHOTID'' =
     (if Snapshot options = [] then None else Some [Snapshot options]) \<and>
   CreateServer_values name regionID planID osID (Some options) ''SSHKEYID'' =
     (if SSHKey options = [] then None else Some [SSHKey options])"
proof (intro conjI)
  show "CreateServer post name regionID planID osID (Some options) =
     (case post ''server/create'' (CreateServer_values name regionID planID osID (Some options))
             Server_zero of
        (server, Some err) \<Rightarrow> (Server_zero, Some err)
      | (server, None) \<Rightarrow>
          (server\<lparr>Name := name, RegionID := regionID, PlanID := planID\<rparr>, None))"
    by (simp add: CreateServer_def)
  show "snd (CreateServer post name regionID planID osID (Some options)) =
     snd (post ''server/create'' (CreateServer_values name regionID planID osID (Some options))
            Server_zero)"
    by (simp add: CreateServer_def split: prod.split option.split)
  show "CreateServer post name regionID planID osID (Some options) =
     CreateServer
       (\<lambda>path values. post ''server/create''
          (CreateServer_values name regionID planID osID (Some options)))
       name regionID planID osID (Some options)"
    by (simp add: CreateServer_def)
  show "CreateServer_values name regionID planID osID (Some options) ''userdata'' =
     (if UserData options = [] then None else Some [EncodeToString (UserData options)])"
    by (simp add: values_simps)
  show "CreateServer_values name regionID planID osID (Some options) ''enable_ipv6'' =
     Some [if IPV6 options then ''yes'' else ''no'']"
    by (simp add: values_simps)
  show "CreateServer_values name regionID planID osID (Some options) ''enable_private_network'' =
     Some [if PrivateNetworking options then ''yes'' else ''no'']"
    by (simp add: values_simps)
  show "CreateServer_values name regionID planID osID (Some options) ''auto_backups'' =
     Some [if OptAutoBackups options then ''yes'' else ''no'']"
    by (simp add: values_simps)
  show "CreateServer_values name regionID planID osID (Some options) ''notify_activate'' =
     Some [if DontNotifyOnActivate options then ''no'' else ''yes'']"
    by (simp add: values_simps)
  show "CreateServer_values name regionID planID osID (Some options) ''ipxe_chain_url'' =
     (if IPXEChainURL options = [] then None else Some [IPXEChainURL options])"
    by (simp add: values_simps)
  show "CreateServer_values name regionID planID osID (Some options) ''ISOID'' =
     (if ISO options = 0 then None else Some [Sprintf_int (ISO options)])"
    by (simp add: values_simps)
  show "CreateServer_values name regionID planID osID (Some options) ''SCRIPTID'' =
     (if Script options = 0 then None else Some [Sprintf_int (Script options)])"
    by (simp add: values_simps)
  show "CreateServer_values name regionID planID osID (Some options) ''SNAPSHOTID'' =
     (if Snapshot options = [] then None else Some [Snapshot options])"
    by (simp add: values_simps)
  show "CreateServer_values name regionID planID osID (Some options) ''SSHKEYID'' =
     (if SSHKey options = [] then None else Some [SSHKey options])"
    by (simp add: values_simps)
qed


lemma EncodeToString_Man: "EncodeToString ''Man'' = ''TWFu''"
  by (simp add: encodeStd_def)

lemma Sprintf_int_12: "Sprintf_int 12 = ''12''"
  by (simp add: Sprintf_int_def digit_char_simps)

theorem CreateServer_values_options_witness:
  "CreateServer (post_echo ''userdata'') ''web'' 1 201 127 (Some options_ex) =
     (Server_zero, Some (OtherError ''TWFu'')) \<and>
   CreateServer (post_echo ''enable_ipv6'') ''web'' 1 201 127 (Some options_ex) =
     (Server_zero, Some (OtherError ''yes'')) \<and>
   CreateServer (post_echo ''enable_private_network'') ''web'' 1 201 127 (Some options_ex) =
     (Server_zero, Some (OtherError ''no'')) \<and>
   CreateServer (post_echo ''auto_backups'') ''web'' 1 201 127 (Some options_ex) =
     (Server_zero, Some (OtherError ''no'')) \<and>
   CreateServer (post_echo ''notify_activate'') ''web'' 1 201 127 (Some options_ex) =
     (Server_zero, Some (OtherError ''no'')) \<and>
   CreateServer (post_echo ''ipxe_chain_url'') ''web'' 1 201 127 (Some options_ex) =
     (Server_zero, Some (OtherError ''(none)'')) \<and>
   CreateServer (post_echo ''ISOID'') ''web'' 1 201 127 (Some options_ex) =
     (Server_zero, Some (OtherError ''(none)'')) \<and>
   CreateServer (post_echo ''SCRIPTID'') ''web'' 1 201 127 (Some options_ex) =
     (Server_zero, Some (OtherError ''12'')) \<and>
   CreateServer (post_echo ''SNAPSHOTID'') ''web'' 1 201 127 (Some options_ex) =
     (Server_zero, Some (OtherError ''(none)'')) \<and>
   CreateServer (post_echo ''SSHKEYID'') ''web'' 1 201 127 (Some options_ex) =
     (Server_zero, Some (OtherError ''k'')) \<and>
   CreateServer_values ''web'' 1 201 127 (Some options_ex) ''userdata'' = Some [''TWFu''] \<and>
   CreateServer_values ''web'' 1 201 127 (Some options_ex) ''notify_activate'' = Some [''no'']"
proof -
  have e: "CreateServer (post_echo key) ''web'' 1 201 127 (Some options_ex) =
      (Server_zero, Some (OtherError
         (case CreateServer_values ''web'' 1 201 127 (Some options_ex) key of
            None \<Rightarrow> ''(none)'' | Some vs \<Rightarrow> concat vs)))" for key
    using CreateServer_values_options [of "post_echo key" "''web''" 1 201 127 options_ex]
    by (simp add: post_echo_def)
  have v: "CreateServer_values ''web'' 1 201 127 (Some options_ex) ''userdata'' = Some [''TWFu'']"
    "CreateServer_values ''web'' 1 201 127 (Some options_ex) ''enable_ipv6'' = Some [''yes'']"
    "CreateServer_values ''web'' 1 201 127 (Some options_ex) ''enable_private_network'' = Some [''no'']"
    "CreateServer_values ''web'' 1 201 127 (Some options_ex) ''auto_backups'' = Some [''no'']"
    "CreateServer_values ''web'' 1 201 127 (Some options_ex) ''notify_activate'' = Some [''no'']"
    "CreateServer_values ''web'' 1 201 127 (Some options_ex) ''ipxe_chain_url'' = None"
    "CreateServer_values ''web'' 1 201 127 (Some options_ex) ''ISOID'' = None"
    "CreateServer_values ''web'' 1 201 127 (Some options_ex) ''SCRIPTID'' = Some [''12'']"
    "CreateServer_values ''web'' 1 201 127 (Some options_ex) ''SNAPSHOTID'' = None"
    "CreateServer_values ''web'' 1 201 127 (Some options_ex) ''SSHKEYID'' = Some [''k'']"
    using CreateServer_values_options [of post_ex "''web''" 1 201 127 options_ex]
    by (simp_all add: options_ex_def EncodeToString_Man Sprintf_int_12 del: EncodeToString.simps)
  show ?thesis
    unfolding e v by simp
qed

section \<open>What ParseInt accepts, and what a float prints as\<close>

lemma not_digit [simp]:
  "\<not> is_digit CHR ''e''" "\<not> is_digit CHR ''.''" "\<not> is_digit CHR ''-''" "\<not> is_digit CHR ''+''"
  "\<not> is_digit CHR ''<''" "is_digit CHR ''0''"
  by (simp_all add: is_digit_def)

lemma digits_val_zeros:
  "digits_val (s @ replicate k CHR ''0'') = digits_val s * 10 ^ k"
proof -
  have "foldl (\<lambda>n c. n * 10 + digit_val c) a (replicate k CHR ''0'') = a * 10 ^ k" for a
    by (induction k arbitrary: a) (simp_all add: digit_val_def)
  then show ?thesis by (simp add: digits_val_def)
qed

lemma fmtE_e: "CHR ''e'' \<in> set (fmtE neg digs prec)"
  by (simp add: fmtE_def)

lemma is_digit_val: "is_digit c \<Longrightarrow> digit_val c \<le> 9"
proof -
  assume "is_digit c"
  then have "(of_char c :: nat) \<le> 57"
    by (simp add: is_digit_def less_eq_char_def)
  then show ?thesis
    unfolding digit_val_def by linarith
qed

lemma ParseUint_loop_syntax:
  "list_all is_digit ds \<Longrightarrow> \<not> is_digit c \<Longrightarrow>
   (a + 1) * 10 ^ length ds \<le> 18446744073709551616 \<Longrightarrow>
   ParseUint_loop (ds @ c # rest) a = Inl ErrSyntax"
proof (induction ds arbitrary: a)
  case Nil
  then show ?case by simp
next
  case (Cons x xs)
  have x: "digit_val x \<le> 9"
    using Cons.prems(1) by (simp add: is_digit_val)
  have "(a + 1) * 10 * 10 ^ length xs = (a + 1) * 10 ^ length (x # xs)"
    by (simp add: algebra_simps)
  then have "(a + 1) * 10 * 10 ^ length xs \<le> 18446744073709551616"
    using Cons.prems(3) by (simp only:)
  moreover have "(a * 10 + digit_val x + 1) * 10 ^ length xs \<le> (a + 1) * 10 * 10 ^ length xs"
    using x by (intro mult_le_mono1) simp
  ultimately have b: "(a * 10 + digit_val x + 1) * 10 ^ length xs \<le> 18446744073709551616"
    by (rule order_trans [rotated])
  have "1 \<le> (10::nat) ^ length xs" by simp
  then have "a * 10 + digit_val x + 1 \<le> (a * 10 + digit_val x + 1) * 10 ^ length xs"
    by (metis mult.right_neutral mult_le_mono2)
  with b have "a * 10 + digit_val x + 1 \<le> 18446744073709551616" by linarith
  then have nov: "\<not> a * 10 + digit_val x > 18446744073709551615" by simp
  show ?case
    using Cons.prems(1,2) nov Cons.IH [OF _ Cons.prems(2) b] by simp
qed

lemma ParseInt_syntax:
  assumes ds: "list_all is_digit ds" and ne: "ds \<noteq> []" and c: "\<not> is_digit c"
    and len: "length ds \<le> 6"
  shows "ParseInt ((if neg then ''-'' else []) @ ds @ c # rest) =
           Inl (NumError ''ParseInt'' ((if neg then ''-'' else []) @ ds @ c # rest) ErrSyntax)"
proof -
  have "(10::nat) ^ length ds \<le> 10 ^ 6"
    using len by (intro power_increasing) simp_all
  then have "(0 + 1) * (10::nat) ^ length ds \<le> 18446744073709551616" by simp
  from ParseUint_loop_syntax [OF ds c this]
  have u: "ParseUint (ds @ c # rest) = Inl ErrSyntax"
    by (simp add: ParseUint_def)
  from ne obtain x xs where x: "ds = x # xs" by (cases ds) auto
  with ds have "is_digit x" by simp
  then have h: "x \<noteq> CHR ''-''" "x \<noteq> CHR ''+''" by auto
  show ?thesis
  proof (cases neg)
    case True
    then show ?thesis using u by (simp add: ParseInt_def)
  next
    case False
    then show ?thesis using u h x by (simp add: ParseInt_def)
  qed
qed

lemma fmtE_shape:
  assumes "list_all is_digit (d digs)"
  shows "\<exists>c0 c rest. fmtE neg digs (int (nd digs) - 1) = (if neg then ''-'' else []) @ [c0] @ c # rest \<and>
                     is_digit c0 \<and> \<not> is_digit c"
proof (cases "d digs")
  case Nil
  then show ?thesis
    unfolding fmtE_def nd_def by (intro exI [of _ "CHR ''0''"] exI [of _ "CHR ''e''"] exI) simp
next
  case (Cons x xs)
  with assms have x: "is_digit x" by simp
  show ?thesis
  proof (cases xs)
    case Nil
    with Cons x show ?thesis
      unfolding fmtE_def nd_def by (intro exI [of _ x] exI [of _ "CHR ''e''"] exI) simp
  next
    case (Cons y ys)
    with \<open>d digs = x # xs\<close> x show ?thesis
      unfolding fmtE_def nd_def Let_def by (intro exI [of _ x] exI [of _ "CHR ''.''"] exI) simp
  qed
qed

lemma fmtF_fraction_shape:
  assumes dig: "list_all is_digit (d digs)" and p: "dp digs \<le> 6" and f: "dp digs < int (nd digs)"
  shows "\<exists>ip rest. fmtF neg digs (max (int (nd digs) - dp digs) 0) =
                    (if neg then ''-'' else []) @ ip @ CHR ''.'' # rest \<and>
                  list_all is_digit ip \<and> ip \<noteq> [] \<and> length ip \<le> 6"
proof (cases "dp digs > 0")
  case True
  let ?ip = "take (nat (dp digs)) (d digs)"
  have m: "min (nd digs) (nat (dp digs)) = nat (dp digs)"
    using f by simp
  have "list_all is_digit ?ip"
    using dig by (auto simp: list_all_iff dest: in_set_takeD)
  moreover have "?ip \<noteq> []"
    using True f by (auto simp: nd_def)
  moreover have "length ?ip \<le> 6"
    using p by simp
  moreover have "fmtF neg digs (max (int (nd digs) - dp digs) 0) =
                    (if neg then ''-'' else []) @ ?ip @ CHR ''.'' #
                    tl (''.'' @ map (\<lambda>i. let j = dp digs + int i in
                            if 0 \<le> j \<and> j < int (nd digs) then d digs ! nat j else CHR ''0'')
                    [0 ..< nat (max (int (nd digs) - dp digs) 0)])"
    using True f unfolding fmtF_def Let_def m by simp
  ultimately show ?thesis by blast
next
  case False
  have "fmtF neg digs (max (int (nd digs) - dp digs) 0) =
                    (if neg then ''-'' else []) @ ''0'' @ CHR ''.'' #
                    tl (''.'' @ map (\<lambda>i. let j = dp digs + int i in
                            if 0 \<le> j \<and> j < int (nd digs) then d digs ! nat j else CHR ''0'')
                    [0 ..< nat (max (int (nd digs) - dp digs) 0)])"
    using False f unfolding fmtF_def Let_def by simp
  then show ?thesis
    by (intro exI [of _ "''0''"] exI) simp
qed

lemma ParseInt_FormatFloat_syntax:
  assumes wf: "float64_wf x" and np: "\<not> prints_as_integer x"
  shows "ParseInt (FormatFloat x) = Inl (NumError ''ParseInt'' (FormatFloat x) ErrSyntax)"
proof (cases x)
  case (Finite neg digs)
  have dig: "list_all is_digit (d digs)"
    using wf Finite by (simp add: float64_wf_def)
  show ?thesis
  proof (cases "dp digs - 1 < -4 \<or> dp digs - 1 \<ge> 6")
    case True
    then have F: "FormatFloat x = fmtE neg digs (int (nd digs) - 1)"
      using Finite by (simp add: formatDigits_g_def Let_def)
    from fmtE_shape [OF dig] obtain c0 c rest where
      s: "FormatFloat x = (if neg then ''-'' else []) @ [c0] @ c # rest"
      and c0: "is_digit c0" and c: "\<not> is_digit c"
      unfolding F by blast
    show ?thesis
      unfolding s using ParseInt_syntax [of "[c0]" c neg rest] c0 c by simp
  next
    case False
    then have F: "FormatFloat x = fmtF neg digs (max (int (nd digs) - dp digs) 0)"
      using Finite by (simp add: formatDigits_g_def Let_def)
    from False have p: "dp digs \<le> 6" by simp
    with np Finite have f: "dp digs < int (nd digs)"
      by (simp add: prints_as_integer_def)
    from fmtF_fraction_shape [OF dig p f] obtain ip rest where
      s: "FormatFloat x = (if neg then ''-'' else []) @ ip @ CHR ''.'' # rest"
      and ip: "list_all is_digit ip" "ip \<noteq> []" "length ip \<le> 6"
      unfolding F by blast
    show ?thesis
      unfolding s by (rule ParseInt_syntax [OF ip(1,2) _ ip(3)]) simp
  qed
next
  case (Inf neg)
  have "ParseInt ''-Inf'' = Inl (NumError ''ParseInt'' ''-Inf'' ErrSyntax)"
       "ParseInt ''+Inf'' = Inl (NumError ''ParseInt'' ''+Inf'' ErrSyntax)"
    by (simp_all add: ParseInt_def ParseUint_def is_digit_def)
  with Inf show ?thesis by (cases neg) simp_all
next
  case NaN
  have "ParseInt ''NaN'' = Inl (NumError ''ParseInt'' ''NaN'' ErrSyntax)"
    by (simp add: ParseInt_def ParseUint_def is_digit_def)
  with NaN show ?thesis by simp
qed

lemma ParseUint_loop_digits:
  "list_all is_digit ds \<Longrightarrow> (a + 1) * 10 ^ length ds \<le> 18446744073709551616 \<Longrightarrow>
   ParseUint_loop ds a = Inr (foldl (\<lambda>n c. n * 10 + digit_val c) a ds) \<and>
   foldl (\<lambda>n c. n * 10 + digit_val c) a ds + 1 \<le> (a + 1) * 10 ^ length ds"
proof (induction ds arbitrary: a)
  case Nil
  then show ?case by simp
next
  case (Cons x xs)
  have x: "digit_val x \<le> 9"
    using Cons.prems(1) by (simp add: is_digit_val)
  have e: "(a + 1) * 10 * 10 ^ length xs = (a + 1) * 10 ^ length (x # xs)"
    by (simp add: algebra_simps)
  then have "(a + 1) * 10 * 10 ^ length xs \<le> 18446744073709551616"
    using Cons.prems(2) by (simp only:)
  moreover have m: "(a * 10 + digit_val x + 1) * 10 ^ length xs \<le> (a + 1) * 10 * 10 ^ length xs"
    using x by (intro mult_le_mono1) simp
  ultimately have b: "(a * 10 + digit_val x + 1) * 10 ^ length xs \<le> 18446744073709551616"
    by (rule order_trans [rotated])
  have "1 \<le> (10::nat) ^ length xs" by simp
  then have "a * 10 + digit_val x + 1 \<le> (a * 10 + digit_val x + 1) * 10 ^ length xs"
    by (metis mult.right_neutral mult_le_mono2)
  with b have "a * 10 + digit_val x + 1 \<le> 18446744073709551616" by linarith
  then have nov: "\<not> a * 10 + digit_val x > 18446744073709551615" by simp
  from Cons.IH [OF _ b] Cons.prems(1)
  have ih: "ParseUint_loop xs (a * 10 + digit_val x) =
              Inr (foldl (\<lambda>n c. n * 10 + digit_val c) (a * 10 + digit_val x) xs)"
    and bd: "foldl (\<lambda>n c. n * 10 + digit_val c) (a * 10 + digit_val x) xs + 1 \<le>
              (a * 10 + digit_val x + 1) * 10 ^ length xs"
    by simp_all
  from bd m e have "foldl (\<lambda>n c. n * 10 + digit_val c) (a * 10 + digit_val x) xs + 1 \<le>
              (a + 1) * 10 ^ length (x # xs)"
    by linarith
  with ih nov Cons.prems(1) show ?case by simp
qed

lemma ParseInt_digits:
  assumes ds: "list_all is_digit ds" and ne: "ds \<noteq> []" and len: "length ds \<le> 6"
  shows "ParseInt ((if neg then ''-'' else []) @ ds) =
           Inr ((if neg then - 1 else 1) * int (digits_val ds))"
proof -
  have p: "(10::nat) ^ length ds \<le> 10 ^ 6"
    using len by (intro power_increasing) simp_all
  then have "(0 + 1) * (10::nat) ^ length ds \<le> 18446744073709551616" by simp
  from ParseUint_loop_digits [OF ds this]
  have u: "ParseUint ds = Inr (digits_val ds)" and "digits_val ds + 1 \<le> 10 ^ length ds"
    using ne by (simp_all add: ParseUint_def digits_val_def)
  with p have b: "digits_val ds < 9223372036854775808" by simp
  from ne obtain x xs where x: "ds = x # xs" by (cases ds) auto
  with ds have "is_digit x" by simp
  then have h: "x \<noteq> CHR ''-''" "x \<noteq> CHR ''+''" by auto
  show ?thesis
  proof (cases neg)
    case True
    then show ?thesis using u b by (simp add: ParseInt_def)
  next
    case False
    then show ?thesis using u b h x by (simp add: ParseInt_def)
  qed
qed

lemma ParseInt_FormatFloat_integer:
  assumes wf: "float64_wf x" and pi: "prints_as_integer x"
  shows "ParseInt (FormatFloat x) = Inr (float64_int x)"
proof -
  from pi obtain neg digs where Finite: "x = Finite neg digs"
    and le: "int (nd digs) \<le> dp digs" and p6: "dp digs \<le> 6"
    by (cases x) (auto simp: prints_as_integer_def)
  have dig: "list_all is_digit (d digs)"
    using wf Finite by (simp add: float64_wf_def)
  have len: "length (d digs) \<le> nat (dp digs)"
    using le by (simp add: nd_def)
  have F: "FormatFloat x = fmtF neg digs 0"
    using Finite le p6 by (simp add: formatDigits_g_def Let_def)
  let ?body = "if dp digs > 0 then d digs @ replicate (nat (dp digs) - nd digs) CHR ''0'' else ''0''"
  have out: "FormatFloat x = (if neg then ''-'' else []) @ ?body"
    unfolding F using len by (simp add: fmtF_def nd_def Let_def min_def)
  have b1: "list_all is_digit ?body"
    using dig by (auto simp: list_all_iff)
  have b2: "?body \<noteq> []"
    using le by (cases "d digs") (auto simp: nd_def)
  have b3: "length ?body \<le> 6"
    using len p6 by (auto simp: nd_def)
  have v: "int (digits_val ?body) = int (digits_val (d digs)) * 10 ^ nat (dp digs - int (nd digs))"
  proof (cases "dp digs > 0")
    case True
    have "nat (dp digs) - nd digs = nat (dp digs - int (nd digs))"
      using le by simp
    with True show ?thesis by (simp add: digits_val_zeros)
  next
    case False
    with le have "dp digs = 0 \<and> length (d digs) = 0"
      unfolding nd_def by linarith
    then show ?thesis
      by (simp add: digits_val_def digit_val_def nd_def)
  qed
  have "ParseInt (FormatFloat x) = Inr ((if neg then - 1 else 1) * int (digits_val ?body))"
    unfolding out by (rule ParseInt_digits [OF b1 b2 b3])
  then show ?thesis
    unfolding v by (simp add: Finite float64_int_def)
qed

lemma ParseInt_FormatFloat_cases:
  "float64_wf x \<Longrightarrow>
   ParseInt (FormatFloat x) =
     (if prints_as_integer x then Inr (float64_int x)
      else Inl (NumError ''ParseInt'' (FormatFloat x) ErrSyntax))"
  by (simp add: ParseInt_FormatFloat_integer ParseInt_FormatFloat_syntax)

lemma ParseInt_FormatFloat:
  assumes wf: "float64_wf x" and p: "ParseInt (FormatFloat x) = Inr v"
  shows "prints_as_integer x \<and> v = float64_int x"
  using p by (simp add: ParseInt_FormatFloat_cases [OF wf] split: if_splits)

section \<open>The decoder, step by step\<close>

lemma fmtF_shape:
  assumes "list_all is_digit (d digs)"
  shows "\<exists>ip fp. fmtF neg digs prec = (if neg then ''-'' else []) @ ip @ fp \<and>
                  ip \<noteq> [] \<and> is_digit (hd ip)"
proof (cases "dp digs > 0")
  case True
  let ?m = "min (nd digs) (nat (dp digs))"
  let ?ip = "take ?m (d digs) @ replicate (nat (dp digs) - ?m) CHR ''0''"
  have ne: "?ip \<noteq> []"
    using True by (cases "d digs") (auto simp: nd_def)
  have "list_all is_digit ?ip"
    using assms by (auto simp: list_all_iff dest: in_set_takeD)
  with ne have "is_digit (hd ?ip)"
    by (metis list.set_sel(1) list_all_iff)
  with ne True show ?thesis
    unfolding fmtF_def Let_def by (intro exI [of _ ?ip] exI) simp
next
  case False
  then show ?thesis
    unfolding fmtF_def by (intro exI [of _ "''0''"] exI) simp
qed

lemma FormatFloat_not_nil:
  assumes "float64_wf x"
  shows "FormatFloat x \<noteq> [] \<and> FormatFloat x \<noteq> ''<nil>''"
proof (cases x)
  case (Finite neg digs)
  have dig: "list_all is_digit (d digs)"
    using assms Finite by (simp add: float64_wf_def)
  show ?thesis
  proof (cases "dp digs - 1 < -4 \<or> dp digs - 1 \<ge> 6")
    case True
    then have "FormatFloat x = fmtE neg digs (int (nd digs) - 1)"
      using Finite by (simp add: formatDigits_g_def Let_def)
    then have "CHR ''e'' \<in> set (FormatFloat x)"
      using fmtE_e by simp
    then show ?thesis by auto
  next
    case False
    then have F: "FormatFloat x = fmtF neg digs (max (int (nd digs) - dp digs) 0)"
      using Finite by (simp add: formatDigits_g_def Let_def)
    from fmtF_shape [OF dig] obtain ip fp where
      s: "FormatFloat x = (if neg then ''-'' else []) @ ip @ fp" and ne: "ip \<noteq> []"
      and h: "is_digit (hd ip)"
      unfolding F by blast
    from ne obtain c cs where ip: "ip = c # cs" by (cases ip) auto
    with h have "c \<noteq> CHR ''<''" by auto
    with s ip show ?thesis by (cases neg) auto
  qed
next
  case (Inf neg)
  then show ?thesis by simp
next
  case NaN
  then show ?thesis by simp
qed

lemma numeric_text_absent [simp]:
  "numeric_text None = ''0''" "numeric_text (Some JNull) = ''0''"
  by (simp_all add: numeric_text_def Sprintf_v_def)

lemma numeric_text_JString:
  "numeric_text (Some (JString t)) = (if t = [] \<or> t = ''<nil>'' then ''0'' else t)"
  by (simp add: numeric_text_def Sprintf_v_def)

lemma numeric_text_JNumber:
  "float64_wf x \<Longrightarrow> numeric_text (Some (JNumber x)) = FormatFloat x"
  using FormatFloat_not_nil [of x] by (simp add: numeric_text_def Sprintf_v_def)

lemma numeric_text_same:
  "Sprintf_v v = Sprintf_v w \<Longrightarrow> numeric_text v = numeric_text w"
  by (simp add: numeric_text_def)

lemma decode_strings_numeric [simp]:
  "VCpus (decode_strings s fields') = VCpus s"
  "RegionID (decode_strings s fields') = RegionID s"
  "PlanID (decode_strings s fields') = PlanID s"
  "PendingCharges (decode_strings s fields') = PendingCharges s"
  "CurrentBandwidth (decode_strings s fields') = CurrentBandwidth s"
  "AllowedBandwidth (decode_strings s fields') = AllowedBandwidth s"
  by (simp_all add: decode_strings_def Let_def split: option.split json.split)

lemma decode_fields_Inr:
  assumes "ParseInt (numeric_text (fields' ''vcpu_count'')) = Inr vcpu"
    and "ParseInt (numeric_text (fields' ''DCID'')) = Inr region"
    and "ParseInt (numeric_text (fields' ''VPSPLANID'')) = Inr plan"
    and "ParseFloat (numeric_text (fields' ''pending_charges'')) = Inr pc"
    and "ParseFloat (numeric_text (fields' ''current_bandwidth_gb'')) = Inr cb"
    and "ParseFloat (numeric_text (fields' ''allowed_bandwidth_gb'')) = Inr ab"
  shows "decode_fields ParseFloat s fields' =
           (decode_strings
              (s\<lparr>VCpus := vcpu, RegionID := region, PlanID := plan, PendingCharges := pc,
                 CurrentBandwidth := cb, AllowedBandwidth := ab\<rparr>) fields', None)"
  using assms by (simp add: decode_fields_def)

lemma decode_fields_None:
  assumes "decode_fields ParseFloat s fields' = (s', None)"
  shows "\<exists>vcpu region plan pc cb ab.
           ParseInt (numeric_text (fields' ''vcpu_count'')) = Inr vcpu \<and>
           ParseInt (numeric_text (fields' ''DCID'')) = Inr region \<and>
           ParseInt (numeric_text (fields' ''VPSPLANID'')) = Inr plan \<and>
           ParseFloat (numeric_text (fields' ''pending_charges'')) = Inr pc \<and>
           ParseFloat (numeric_text (fields' ''current_bandwidth_gb'')) = Inr cb \<and>
           ParseFloat (numeric_text (fields' ''allowed_bandwidth_gb'')) = Inr ab \<and>
           s' = decode_strings
              (s\<lparr>VCpus := vcpu, RegionID := region, PlanID := plan, PendingCharges := pc,
                 CurrentBandwidth := cb, AllowedBandwidth := ab\<rparr>) fields'"
  using assms by (auto simp: decode_fields_def Let_def split: sum.splits)

lemma decode_fields_numeric:
  assumes "decode_fields ParseFloat s fields' = (s', None)"
  shows "ParseInt (numeric_text (fields' ''vcpu_count'')) = Inr (VCpus s')"
    and "ParseInt (numeric_text (fields' ''DCID'')) = Inr (RegionID s')"
    and "ParseInt (numeric_text (fields' ''VPSPLANID'')) = Inr (PlanID s')"
    and "ParseFloat (numeric_text (fields' ''pending_charges'')) = Inr (PendingCharges s')"
    and "ParseFloat (numeric_text (fields' ''current_bandwidth_gb'')) = Inr (CurrentBandwidth s')"
    and "ParseFloat (numeric_text (fields' ''allowed_bandwidth_gb'')) = Inr (AllowedBandwidth s')"
  using decode_fields_None [OF assms] by auto

lemma decode_strings_same:
  assumes "\<forall>key. Sprintf_v (fields'' key) = Sprintf_v (fields' key)"
    and "fields'' ''v6_networks'' = fields' ''v6_networks''"
  shows "decode_strings s fields'' = decode_strings s fields'"
  using assms by (simp add: decode_strings_def)

lemma decode_fields_same:
  assumes r: "\<forall>key. Sprintf_v (fields'' key) = Sprintf_v (fields' key)"
    and n: "fields'' ''v6_networks'' = fields' ''v6_networks''"
  shows "decode_fields ParseFloat s fields'' = decode_fields ParseFloat s fields'"
proof -
  have t: "numeric_text (fields'' key) = numeric_text (fields' key)" for key
    using r by (simp add: numeric_text_def)
  have u: "decode_strings t fields'' = decode_strings t fields'" for t
    by (rule decode_strings_same [OF r n])
  show ?thesis
    unfolding decode_fields_def t u by (rule refl)
qed

lemma UnmarshalJSON_None:
  assumes "UnmarshalJSON json_Unmarshal ParseFloat s data = (s', None)"
  shows "\<exists>fields'. json_Unmarshal data = Inr fields' \<and>
                   decode_fields ParseFloat s fields' = (s', None)"
  using assms by (auto simp: UnmarshalJSON_def split: sum.splits)

lemma FormatFloat_2: "formatDigits_g False \<lparr>d = ''2'', dp = 1\<rparr> = ''2''"
  by (simp add: formatDigits_g_def fmtF_def nd_def)

lemma FormatFloat_2_5: "formatDigits_g False \<lparr>d = ''25'', dp = 1\<rparr> = ''2.5''"
  by (simp add: formatDigits_g_def fmtF_def nd_def)

lemma ParseInt_2: "ParseInt ''2'' = Inr 2"
  by (simp add: ParseInt_def ParseUint_def is_digit_def digit_val_def)

lemma ParseInt_7: "ParseInt ''7'' = Inr 7"
  by (simp add: ParseInt_def ParseUint_def is_digit_def digit_val_def)

lemma numeric_text_payload_ex:
  "numeric_text (payload_ex ''vcpu_count'') = ''2''"
  "numeric_text (payload_ex ''DCID'') = ''7''"
  "numeric_text (payload_ex ''VPSPLANID'') = ''0''"
  "numeric_text (payload_ex ''pending_charges'') = ''2.5''"
  "numeric_text (payload_ex ''current_bandwidth_gb'') = ''0''"
  "numeric_text (payload_ex ''allowed_bandwidth_gb'') = ''0''"
  by (simp_all add: payload_ex_def numeric_text_def Sprintf_v_def FormatFloat_2 FormatFloat_2_5)

lemma decode_payload_ex:
  "decode_fields ParseFloat_ex s payload_ex =
     (decode_strings
        (s\<lparr>VCpus := 2, RegionID := 7, PlanID := 0,
           PendingCharges := Finite False \<lparr>d = ''25'', dp = 1\<rparr>,
           CurrentBandwidth := float64_zero, AllowedBandwidth := float64_zero\<rparr>) payload_ex,
      None)"
  by (rule decode_fields_Inr)
     (simp_all add: numeric_text_payload_ex ParseInt_2 ParseInt_7 ParseInt_0 ParseFloat_ex_def)

section \<open>Decimal texts of integers\<close>

lemma ParseUint_loop_Inr:
  "ParseUint_loop s a = Inr v \<Longrightarrow>
   list_all is_digit s \<and> v = foldl (\<lambda>n c. n * 10 + digit_val c) a s"
  by (induction s arbitrary: a) (auto split: if_splits)

lemma ParseInt_Inr:
  assumes "ParseInt s0 = Inr v"
  shows "s0 \<noteq> [] \<and>
         v = (if hd s0 = CHR ''-'' then - 1 else 1) *
             int (digits_val (if hd s0 = CHR ''+'' \<or> hd s0 = CHR ''-'' then tl s0 else s0))"
  using assms
  by (auto simp: ParseInt_def ParseUint_def Let_def digits_val_def
      split: sum.splits strconv_err.splits if_splits dest: ParseUint_loop_Inr)

lemma digit_val_digit_char: "k < 10 \<Longrightarrow> digit_val (digit_char k) = k"
  by (simp add: digit_val_def digit_char_def)

lemma is_digit_digit_char: "k < 10 \<Longrightarrow> is_digit (digit_char k)"
  by (simp add: is_digit_def digit_char_def less_eq_char_def)

lemma digits_val_snoc: "digits_val (s @ [c]) = digits_val s * 10 + digit_val c"
  by (simp add: digits_val_def)

lemma digits10_props:
  "digits10 m \<noteq> [] \<and> list_all is_digit (digits10 m) \<and> digits_val (digits10 m) = m"
proof (induction m rule: digits10.induct)
  case (1 n)
  show ?case
  proof (cases "n < 10")
    case True
    then have "digits10 n = [digit_char n]"
      by (subst digits10.simps) simp
    with True show ?thesis
      by (simp add: is_digit_digit_char digits_val_def digit_val_digit_char del: digits10.simps)
  next
    case False
    then have e: "digits10 n = digits10 (n div 10) @ [digit_char (n mod 10)]"
      by (subst digits10.simps) simp
    from 1 [OF False] have ih: "list_all is_digit (digits10 (n div 10))"
      "digits_val (digits10 (n div 10)) = n div 10"
      by simp_all
    have m: "n mod 10 < 10" by simp
    show ?thesis
      unfolding e digits_val_snoc
      using ih m
      by (simp add: is_digit_digit_char digit_val_digit_char del: digits10.simps)
  qed
qed

lemma Sprintf_int_not_nil: "Sprintf_int n \<noteq> [] \<and> Sprintf_int n \<noteq> ''<nil>''"
proof -
  obtain c cs where c: "digits10 (nat \<bar>n\<bar>) = c # cs" and d: "is_digit c"
    using digits10_props [of "nat \<bar>n\<bar>"] by (cases "digits10 (nat \<bar>n\<bar>)") auto
  from d have "c \<noteq> CHR ''<''" by auto
  then show ?thesis
    using c by (cases "n < 0") (simp_all add: Sprintf_int_def abs_if del: digits10.simps)
qed

lemma ParseInt_Sprintf_int:
  assumes "ParseInt (Sprintf_int n) = Inr v"
  shows "v = n"
proof (cases "n < 0")
  case True
  then have s: "Sprintf_int n = CHR ''-'' # digits10 (nat (- n))"
    by (simp add: Sprintf_int_def del: digits10.simps)
  from ParseInt_Inr [OF assms] show ?thesis
    unfolding s using True digits10_props [of "nat (- n)"] by (simp del: digits10.simps)
next
  case False
  then have s: "Sprintf_int n = digits10 (nat n)"
    by (simp add: Sprintf_int_def del: digits10.simps)
  obtain c cs where c: "digits10 (nat n) = c # cs" and d: "is_digit c"
    using digits10_props [of "nat n"] by (cases "digits10 (nat n)") auto
  from d have h: "c \<noteq> CHR ''-''" "c \<noteq> CHR ''+''" by auto
  from ParseInt_Inr [OF assms] have "v = int (digits_val (digits10 (nat n)))"
    unfolding s c using h by simp
  then show ?thesis
    using False digits10_props [of "nat n"] by (simp del: digits10.simps)
qed

lemma numeric_text_Sprintf_int:
  "numeric_text (Some (JString (Sprintf_int n))) = Sprintf_int n"
  using Sprintf_int_not_nil [of n] by (simp add: numeric_text_def Sprintf_v_def)

section \<open>A numeric entry replaced by one that parses alike\<close>

lemma ParseInt_range:
  "ParseInt s = Inr v \<Longrightarrow> - 9223372036854775808 \<le> v \<and> v \<le> 9223372036854775807"
  by (auto simp: ParseInt_def Let_def split: sum.splits strconv_err.splits if_splits)

lemma foldl_digits_ge: "a \<le> foldl (\<lambda>n c. n * 10 + digit_val c) a ds"
proof (induction ds arbitrary: a)
  case Nil
  then show ?case by simp
next
  case (Cons x xs)
  have "a \<le> a * 10 + digit_val x" by simp
  also have "\<dots> \<le> foldl (\<lambda>n c. n * 10 + digit_val c) (a * 10 + digit_val x) xs"
    by (rule Cons.IH)
  finally show ?case by simp
qed

lemma ParseUint_loop_value:
  "list_all is_digit ds \<Longrightarrow>
   foldl (\<lambda>n c. n * 10 + digit_val c) a ds \<le> 18446744073709551615 \<Longrightarrow>
   ParseUint_loop ds a = Inr (foldl (\<lambda>n c. n * 10 + digit_val c) a ds)"
proof (induction ds arbitrary: a)
  case Nil
  then show ?case by simp
next
  case (Cons x xs)
  have "a * 10 + digit_val x \<le> foldl (\<lambda>n c. n * 10 + digit_val c) (a * 10 + digit_val x) xs"
    by (rule foldl_digits_ge)
  with Cons.prems(2) have "\<not> a * 10 + digit_val x > 18446744073709551615"
    by simp
  with Cons show ?case by simp
qed

lemma ParseInt_Sprintf_int_ok:
  assumes lo: "- 9223372036854775808 \<le> n" and hi: "n \<le> 9223372036854775807"
  shows "ParseInt (Sprintf_int n) = Inr n"
proof -
  let ?m = "nat \<bar>n\<bar>"
  note p = digits10_props [of ?m]
  obtain c cs where c: "digits10 ?m = c # cs" and d: "is_digit c"
    using p by (cases "digits10 ?m") auto
  from d have h: "c \<noteq> CHR ''-''" "c \<noteq> CHR ''+''" by auto
  have b: "?m \<le> 9223372036854775808"
    using lo hi by simp
  have "foldl (\<lambda>n c. n * 10 + digit_val c) 0 (digits10 ?m) = ?m"
    using p by (simp add: digits_val_def del: digits10.simps)
  with p b have u: "ParseUint (digits10 ?m) = Inr ?m"
    using ParseUint_loop_value [of "digits10 ?m" 0]
    by (simp add: ParseUint_def del: digits10.simps)
  show ?thesis
  proof (cases "n < 0")
    case True
    then have s: "Sprintf_int n = CHR ''-'' # digits10 ?m"
      by (simp add: Sprintf_int_def abs_if del: digits10.simps)
    show ?thesis
      unfolding s using u b True by (simp add: ParseInt_def del: digits10.simps)
  next
    case False
    then have s: "Sprintf_int n = digits10 ?m"
      by (simp add: Sprintf_int_def abs_if del: digits10.simps)
    have "?m < 9223372036854775808" using hi False by simp
    then show ?thesis
      unfolding s c using u h False unfolding c by (simp add: ParseInt_def del: digits10.simps)
  qed
qed

lemma decode_strings_other_keys:
  assumes "\<forall>k. k \<notin> set (map fst int_fields) \<union> set (map fst float_fields) \<longrightarrow> f1 k = f2 k"
  shows "decode_strings t f1 = decode_strings t f2"
proof -
  have a: "f1 k = f2 k"
    if "k \<notin> {''vcpu_count'', ''DCID'', ''VPSPLANID'', ''pending_charges'',
                ''current_bandwidth_gb'', ''allowed_bandwidth_gb''}" for k
    using that assms by (simp add: int_fields_def float_fields_def)
  show ?thesis
    by (simp add: decode_strings_def a)
qed

lemma decode_fields_parse_same:
  assumes i: "\<forall>k\<in>set (map fst int_fields).
                ParseInt (numeric_text (f1 k)) = ParseInt (numeric_text (f2 k))"
    and f: "\<forall>k\<in>set (map fst float_fields).
                ParseFloat (numeric_text (f1 k)) = ParseFloat (numeric_text (f2 k))"
    and o: "\<forall>k. k \<notin> set (map fst int_fields) \<union> set (map fst float_fields) \<longrightarrow> f1 k = f2 k"
  shows "decode_fields ParseFloat s f1 = decode_fields ParseFloat s f2"
proof -
  have u: "decode_strings t f1 = decode_strings t f2" for t
    by (rule decode_strings_other_keys [OF o])
  have p: "ParseInt (numeric_text (f1 ''vcpu_count'')) = ParseInt (numeric_text (f2 ''vcpu_count''))"
    "ParseInt (numeric_text (f1 ''DCID'')) = ParseInt (numeric_text (f2 ''DCID''))"
    "ParseInt (numeric_text (f1 ''VPSPLANID'')) = ParseInt (numeric_text (f2 ''VPSPLANID''))"
    using i by (simp_all add: int_fields_def)
  have q: "ParseFloat (numeric_text (f1 ''pending_charges'')) =
             ParseFloat (numeric_text (f2 ''pending_charges''))"
    "ParseFloat (numeric_text (f1 ''current_bandwidth_gb'')) =
             ParseFloat (numeric_text (f2 ''current_bandwidth_gb''))"
    "ParseFloat (numeric_text (f1 ''allowed_bandwidth_gb'')) =
             ParseFloat (numeric_text (f2 ''allowed_bandwidth_gb''))"
    using f by (simp_all add: float_fields_def)
  show ?thesis
    unfolding decode_fields_def p q u by (rule refl)
qed

lemma decode_fields_update_int:
  assumes k: "(key, field) \<in> set int_fields"
    and p: "ParseInt (numeric_text (Some v)) = ParseInt (numeric_text (fields' key))"
  shows "decode_fields ParseFloat s (fields'(key \<mapsto> v)) = decode_fields ParseFloat s fields'"
proof (rule decode_fields_parse_same)
  show "\<forall>k\<in>set (map fst int_fields).
          ParseInt (numeric_text ((fields'(key \<mapsto> v)) k)) = ParseInt (numeric_text (fields' k))"
    using p by simp
  show "\<forall>k\<in>set (map fst float_fields).
          ParseFloat (numeric_text ((fields'(key \<mapsto> v)) k)) = ParseFloat (numeric_text (fields' k))"
    using k by (auto simp: int_fields_def float_fields_def)
  have "key \<in> set (map fst int_fields) \<union> set (map fst float_fields)"
    using k by force
  then show "\<forall>k. k \<notin> set (map fst int_fields) \<union> set (map fst float_fields) \<longrightarrow>
          (fields'(key \<mapsto> v)) k = fields' k"
    by (metis fun_upd_other)
qed

lemma decode_fields_update_float:
  assumes k: "(key, field) \<in> set float_fields"
    and p: "ParseFloat (numeric_text (Some v)) = ParseFloat (numeric_text (fields' key))"
  shows "decode_fields ParseFloat s (fields'(key \<mapsto> v)) = decode_fields ParseFloat s fields'"
proof (rule decode_fields_parse_same)
  show "\<forall>k\<in>set (map fst int_fields).
          ParseInt (numeric_text ((fields'(key \<mapsto> v)) k)) = ParseInt (numeric_text (fields' k))"
    using k by (auto simp: int_fields_def float_fields_def)
  show "\<forall>k\<in>set (map fst float_fields).
          ParseFloat (numeric_text ((fields'(key \<mapsto> v)) k)) = ParseFloat (numeric_text (fields' k))"
    using p by simp
  have "key \<in> set (map fst int_fields) \<union> set (map fst float_fields)"
    using k by force
  then show "\<forall>k. k \<notin> set (map fst int_fields) \<union> set (map fst float_fields) \<longrightarrow>
          (fields'(key \<mapsto> v)) k = fields' k"
    by (metis fun_upd_other)
qed

section \<open>Numeric fields: number, string or absent\<close>

lemma int_field_parsed:
  assumes k: "(key, field) \<in> set int_fields"
    and dec: "decode_fields ParseFloat s fields' = (s', None)"
  shows "ParseInt (numeric_text (fields' key)) = Inr (field s')"
  using k decode_fields_numeric(1-3) [OF dec] by (auto simp: int_fields_def)

lemma float_field_parsed:
  assumes k: "(key, field) \<in> set float_fields"
    and dec: "decode_fields ParseFloat s fields' = (s', None)"
  shows "ParseFloat (numeric_text (fields' key)) = Inr (field s')"
  using k decode_fields_numeric(4-6) [OF dec] by (auto simp: float_fields_def)

lemma int_field_uniform:
  assumes k: "(key, field) \<in> set int_fields"
    and dec: "decode_fields ParseFloat s fields' = (s', None)"
    and p: "ParseInt (numeric_text (fields' key)) = Inr v"
  shows "(fields' key = None \<or> fields' key = Some JNull \<longrightarrow> v = 0) \<and>
         (\<forall>x. fields' key = Some (JNumber x) \<and> float64_wf x \<longrightarrow>
              prints_as_integer x \<and> v = float64_int x \<and>
              UnmarshalJSON (\<lambda>data. Inr (fields'(key \<mapsto> JString (FormatFloat x))))
                ParseFloat s data = (s', None) \<and>
              UnmarshalJSON (\<lambda>data. Inr (fields'(key \<mapsto> JString (Sprintf_int (float64_int x)))))
                ParseFloat s data = (s', None)) \<and>
         (\<forall>t. fields' key = Some (JString t) \<longrightarrow>
              ParseInt (numeric_text (Some (JString t))) = Inr v) \<and>
         (\<forall>n. fields' key = Some (JString (Sprintf_int n)) \<longrightarrow>
              v = n \<and>
              (\<forall>x. float64_wf x \<and> float64_int x = n \<and>
                   (prints_as_integer x \<or>
                    snd (UnmarshalJSON (\<lambda>data. Inr (fields'(key \<mapsto> JNumber x)))
                           ParseFloat s data) = None) \<longrightarrow>
                   UnmarshalJSON (\<lambda>data. Inr (fields'(key \<mapsto> JNumber x)))
                     ParseFloat s data = (s', None)))"
proof (intro conjI impI allI)
  assume "fields' key = None \<or> fields' key = Some JNull"
  then have "numeric_text (fields' key) = ''0''" by auto
  with p show "v = 0" by (simp add: ParseInt_0)
next
  fix x
  assume a: "fields' key = Some (JNumber x) \<and> float64_wf x"
  then have t: "numeric_text (fields' key) = FormatFloat x"
    by (simp add: numeric_text_JNumber)
  with p have px: "ParseInt (FormatFloat x) = Inr v" by simp
  from ParseInt_FormatFloat [OF _ px] a
  show pi: "prints_as_integer x" and vx: "v = float64_int x" by simp_all
  have e1: "ParseInt (numeric_text (Some (JString (FormatFloat x)))) =
          ParseInt (numeric_text (fields' key))"
    using a by (simp add: numeric_text_def Sprintf_v_def)
  from decode_fields_update_int [where fields' = fields' and key = key and v = "JString (FormatFloat x)", OF k e1] dec
  show "UnmarshalJSON (\<lambda>data. Inr (fields'(key \<mapsto> JString (FormatFloat x))))
          ParseFloat s data = (s', None)"
    by (simp add: UnmarshalJSON_def)
  from ParseInt_range [OF px] have "ParseInt (Sprintf_int v) = Inr v"
    by (intro ParseInt_Sprintf_int_ok) simp_all
  then have e2: "ParseInt (numeric_text (Some (JString (Sprintf_int (float64_int x))))) =
          ParseInt (numeric_text (fields' key))"
    using p vx by (simp add: numeric_text_Sprintf_int)
  from decode_fields_update_int [where fields' = fields' and key = key and v = "JString (Sprintf_int (float64_int x))", OF k e2] dec
  show "UnmarshalJSON (\<lambda>data. Inr (fields'(key \<mapsto> JString (Sprintf_int (float64_int x)))))
          ParseFloat s data = (s', None)"
    by (simp add: UnmarshalJSON_def)
next
  fix t
  assume "fields' key = Some (JString t)"
  with p show "ParseInt (numeric_text (Some (JString t))) = Inr v" by simp
next
  fix n
  assume a: "fields' key = Some (JString (Sprintf_int n))"
  with p have pn: "ParseInt (Sprintf_int n) = Inr v"
    by (simp add: numeric_text_Sprintf_int)
  then show vn: "v = n" by (rule ParseInt_Sprintf_int)
  fix x
  assume b: "float64_wf x \<and> float64_int x = n \<and>
    (prints_as_integer x \<or>
     snd (UnmarshalJSON (\<lambda>data. Inr (fields'(key \<mapsto> JNumber x))) ParseFloat s data) = None)"
  have "prints_as_integer x"
  proof (rule disjE [OF b [THEN conjunct2, THEN conjunct2]])
    assume "snd (UnmarshalJSON (\<lambda>data. Inr (fields'(key \<mapsto> JNumber x))) ParseFloat s data) = None"
    then have "decode_fields ParseFloat s (fields'(key \<mapsto> JNumber x)) =
        (fst (decode_fields ParseFloat s (fields'(key \<mapsto> JNumber x))), None)"
      by (simp add: UnmarshalJSON_def prod_eq_iff)
    from int_field_parsed [OF k this] b have "\<exists>w. ParseInt (FormatFloat x) = Inr w"
      by (simp add: numeric_text_JNumber)
    then obtain w where "ParseInt (FormatFloat x) = Inr w" ..
    from ParseInt_FormatFloat [OF _ this] b show ?thesis by simp
  qed
  with b have "ParseInt (FormatFloat x) = Inr n"
    by (simp add: ParseInt_FormatFloat_integer)
  then have e3: "ParseInt (numeric_text (Some (JNumber x))) =
          ParseInt (numeric_text (fields' key))"
    using b p vn by (simp add: numeric_text_JNumber)
  from decode_fields_update_int [where fields' = fields' and key = key and v = "JNumber x", OF k e3] dec
  show "UnmarshalJSON (\<lambda>data. Inr (fields'(key \<mapsto> JNumber x))) ParseFloat s data = (s', None)"
    by (simp add: UnmarshalJSON_def)
qed

lemma float_field_uniform:
  assumes k: "(key, field) \<in> set float_fields"
    and dec: "decode_fields ParseFloat s fields' = (s', None)"
    and z: "ParseFloat ''0'' = Inr float64_zero"
    and p: "ParseFloat (numeric_text (fields' key)) = Inr v"
  shows "(fields' key = None \<or> fields' key = Some JNull \<longrightarrow> v = float64_zero) \<and>
         (\<forall>x. fields' key = Some (JNumber x) \<longrightarrow>
              ParseFloat (numeric_text (Some (JNumber x))) = Inr v \<and>
              (float64_wf x \<and> ParseFloat (FormatFloat x) = Inr x \<longrightarrow> v = x) \<and>
              UnmarshalJSON (\<lambda>data. Inr (fields'(key \<mapsto> JString (FormatFloat x))))
                ParseFloat s data = (s', None)) \<and>
         (\<forall>t. fields' key = Some (JString t) \<longrightarrow>
              ParseFloat (numeric_text (Some (JString t))) = Inr v \<and>
              (float64_wf v \<and> ParseFloat (FormatFloat v) = Inr v \<longrightarrow>
                 UnmarshalJSON (\<lambda>data. Inr (fields'(key \<mapsto> JNumber v)))
                   ParseFloat s data = (s', None)))"
proof (intro conjI impI allI)
  assume "fields' key = None \<or> fields' key = Some JNull"
  then have "numeric_text (fields' key) = ''0''" by auto
  with p z show "v = float64_zero" by simp
next
  fix x
  assume a: "fields' key = Some (JNumber x)"
  with p show "ParseFloat (numeric_text (Some (JNumber x))) = Inr v" by simp
  have e4: "ParseFloat (numeric_text (Some (JString (FormatFloat x)))) =
          ParseFloat (numeric_text (fields' key))"
    using a by (simp add: numeric_text_def Sprintf_v_def)
  from decode_fields_update_float [where fields' = fields' and key = key and v = "JString (FormatFloat x)", OF k e4] dec
  show "UnmarshalJSON (\<lambda>data. Inr (fields'(key \<mapsto> JString (FormatFloat x))))
          ParseFloat s data = (s', None)"
    by (simp add: UnmarshalJSON_def)
  assume "float64_wf x \<and> ParseFloat (FormatFloat x) = Inr x"
  with a p show "v = x" by (simp add: numeric_text_JNumber)
next
  fix t
  assume a: "fields' key = Some (JString t)"
  with p show "ParseFloat (numeric_text (Some (JString t))) = Inr v" by simp
  assume "float64_wf v \<and> ParseFloat (FormatFloat v) = Inr v"
  then have e5: "ParseFloat (numeric_text (Some (JNumber v))) =
          ParseFloat (numeric_text (fields' key))"
    using p by (simp add: numeric_text_JNumber)
  from decode_fields_update_float [where fields' = fields' and key = key and v = "JNumber v", OF k e5] dec
  show "UnmarshalJSON (\<lambda>data. Inr (fields'(key \<mapsto> JNumber v))) ParseFloat s data = (s', None)"
    by (simp add: UnmarshalJSON_def)
qed

text \<open>
  C1. After a successful decode (\<^verbatim>\<open>ParseFloat("0")\<close> being zero), each of the six
  numeric fields is zero when its key is absent or null, and otherwise holds the number
  its wire value stands for, in either form. For an integer field: a JSON number gives
  the integer it is, a JSON string gives what \<^verbatim>\<open>ParseInt\<close> reads from it, and the
  decimal text of an integer \<open>n\<close> gives \<open>n\<close>; the payload that holds the string of the
  number in place of the number, as Go prints it or in decimal digits, decodes to the
  very same entity, and so does the payload that holds the number in place of its
  string whenever the number prints as a plain integer. For a floating-point field: a
  number or a string gives what \<^verbatim>\<open>ParseFloat\<close> reads from its text, which is the number
  itself when \<^verbatim>\<open>ParseFloat\<close> reads the printed number back; the payload with the string
  of the number decodes to the same entity, and so does the payload with the number that
  a string was read as.
\<close>

theorem numeric_fields_uniform:
  assumes ok: "UnmarshalJSON json_Unmarshal ParseFloat s data = (s', None)"
    and z: "ParseFloat ''0'' = Inr float64_zero"
  shows "\<exists>fields'. json_Unmarshal data = Inr fields' \<and>
     (\<forall>(key, field)\<in>set int_fields.
        (fields' key = None \<or> fields' key = Some JNull \<longrightarrow> field s' = 0) \<and>
        (\<forall>x. fields' key = Some (JNumber x) \<and> float64_wf x \<longrightarrow>
             prints_as_integer x \<and> field s' = float64_int x \<and>
             UnmarshalJSON (\<lambda>data. Inr (fields'(key \<mapsto> JString (FormatFloat x))))
               ParseFloat s data = (s', None) \<and>
             UnmarshalJSON (\<lambda>data. Inr (fields'(key \<mapsto> JString (Sprintf_int (float64_int x)))))
               ParseFloat s data = (s', None)) \<and>
        (\<forall>t. fields' key = Some (JString t) \<longrightarrow>
             ParseInt (numeric_text (Some (JString t))) = Inr (field s')) \<and>
        (\<forall>n. fields' key = Some (JString (Sprintf_int n)) \<longrightarrow>
             field s' = n \<and>
             (\<forall>x. float64_wf x \<and> float64_int x = n \<and>
                  (prints_as_integer x \<or>
                   snd (UnmarshalJSON (\<lambda>data. Inr (fields'(key \<mapsto> JNumber x)))
                          ParseFloat s data) = None) \<longrightarrow>
                  UnmarshalJSON (\<lambda>data. Inr (fields'(key \<mapsto> JNumber x)))
                    ParseFloat s data = (s', None)))) \<and>
     (\<forall>(key, field)\<in>set float_fields.
        (fields' key = None \<or> fields' key = Some JNull \<longrightarrow> field s' = float64_zero) \<and>
        (\<forall>x. fields' key = Some (JNumber x) \<longrightarrow>
             ParseFloat (numeric_text (Some (JNumber x))) = Inr (field s') \<and>
             (float64_wf x \<and> ParseFloat (FormatFloat x) = Inr x \<longrightarrow> field s' = x) \<and>
             UnmarshalJSON (\<lambda>data. Inr (fields'(key \<mapsto> JString (FormatFloat x))))
               ParseFloat s data = (s', None)) \<and>
        (\<forall>t. fields' key = Some (JString t) \<longrightarrow>
             ParseFloat (numeric_text (Some (JString t))) = Inr (field s') \<and>
             (float64_wf (field s') \<and> ParseFloat (FormatFloat (field s')) = Inr (field s') \<longrightarrow>
                UnmarshalJSON (\<lambda>data. Inr (fields'(key \<mapsto> JNumber (field s'))))
                  ParseFloat s data = (s', None))))"
proof -
  from UnmarshalJSON_None [OF ok] obtain fields' where
    u: "json_Unmarshal data = Inr fields'" and dec: "decode_fields ParseFloat s fields' = (s', None)"
    by blast
  have i: "\<forall>(key, field)\<in>set int_fields.
        (fields' key = None \<or> fields' key = Some JNull \<longrightarrow> field s' = 0) \<and>
        (\<forall>x. fields' key = Some (JNumber x) \<and> float64_wf x \<longrightarrow>
             prints_as_integer x \<and> field s' = float64_int x \<and>
             UnmarshalJSON (\<lambda>data. Inr (fields'(key \<mapsto> JString (FormatFloat x))))
               ParseFloat s data = (s', None) \<and>
             UnmarshalJSON (\<lambda>data. Inr (fields'(key \<mapsto> JString (Sprintf_int (float64_int x)))))
               ParseFloat s data = (s', None)) \<and>
        (\<forall>t. fields' key = Some (JString t) \<longrightarrow>
             ParseInt (numeric_text (Some (JString t))) = Inr (field s')) \<and>
        (\<forall>n. fields' key = Some (JString (Sprintf_int n)) \<longrightarrow>
             field s' = n \<and>
             (\<forall>x. float64_wf x \<and> float64_int x = n \<and>
                  (prints_as_integer x \<or>
                   snd (UnmarshalJSON (\<lambda>data. Inr (fields'(key \<mapsto> JNumber x)))
                          ParseFloat s data) = None) \<longrightarrow>
                  UnmarshalJSON (\<lambda>data. Inr (fields'(key \<mapsto> JNumber x)))
                    ParseFloat s data = (s', None)))"
  proof
    fix kf
    assume a: "kf \<in> set int_fields"
    obtain key field where kf: "kf = (key, field)" by (cases kf)
    from a kf have k: "(key, field) \<in> set int_fields" by simp
    note p = int_field_parsed [OF k dec]
    show "case kf of (key, field) \<Rightarrow>
        (fields' key = None \<or> fields' key = Some JNull \<longrightarrow> field s' = 0) \<and>
        (\<forall>x. fields' key = Some (JNumber x) \<and> float64_wf x \<longrightarrow>
             prints_as_integer x \<and> field s' = float64_int x \<and>
             UnmarshalJSON (\<lambda>data. Inr (fields'(key \<mapsto> JString (FormatFloat x))))
               ParseFloat s data = (s', None) \<and>
             UnmarshalJSON (\<lambda>data. Inr (fields'(key \<mapsto> JString (Sprintf_int (float64_int x)))))
               ParseFloat s data = (s', None)) \<and>
        (\<forall>t. fields' key = Some (JString t) \<longrightarrow>
             ParseInt (numeric_text (Some (JString t))) = Inr (field s')) \<and>
        (\<forall>n. fields' key = Some (JString (Sprintf_int n)) \<longrightarrow>
             field s' = n \<and>
             (\<forall>x. float64_wf x \<and> float64_int x = n \<and>
                  (prints_as_integer x \<or>
                   snd (UnmarshalJSON (\<lambda>data. Inr (fields'(key \<mapsto> JNumber x)))
                          ParseFloat s data) = None) \<longrightarrow>
                  UnmarshalJSON (\<lambda>data. Inr (fields'(key \<mapsto> JNumber x)))
                    ParseFloat s data = (s', None)))"
      unfolding kf prod.case by (rule int_field_uniform [OF k dec p])
  qed
  have f: "\<forall>(key, field)\<in>set float_fields.
        (fields' key = None \<or> fields' key = Some JNull \<longrightarrow> field s' = float64_zero) \<and>
        (\<forall>x. fields' key = Some (JNumber x) \<longrightarrow>
             ParseFloat (numeric_text (Some (JNumber x))) = Inr (field s') \<and>
             (float64_wf x \<and> ParseFloat (FormatFloat x) = Inr x \<longrightarrow> field s' = x) \<and>
             UnmarshalJSON (\<lambda>data. Inr (fields'(key \<mapsto> JString (FormatFloat x))))
               ParseFloat s data = (s', None)) \<and>
        (\<forall>t. fields' key = Some (JString t) \<longrightarrow>
             ParseFloat (numeric_text (Some (JString t))) = Inr (field s') \<and>
             (float64_wf (field s') \<and> ParseFloat (FormatFloat (field s')) = Inr (field s') \<longrightarrow>
                UnmarshalJSON (\<lambda>data. Inr (fields'(key \<mapsto> JNumber (field s'))))
                  ParseFloat s data = (s', None)))"
  proof
    fix kf
    assume a: "kf \<in> set float_fields"
    obtain key field where kf: "kf = (key, field)" by (cases kf)
    from a kf have k: "(key, field) \<in> set float_fields" by simp
    note p = float_field_parsed [OF k dec]
    show "case kf of (key, field) \<Rightarrow>
        (fields' key = None \<or> fields' key = Some JNull \<longrightarrow> field s' = float64_zero) \<and>
        (\<forall>x. fields' key = Some (JNumber x) \<longrightarrow>
             ParseFloat (numeric_text (Some (JNumber x))) = Inr (field s') \<and>
             (float64_wf x \<and> ParseFloat (FormatFloat x) = Inr x \<longrightarrow> field s' = x) \<and>
             UnmarshalJSON (\<lambda>data. Inr (fields'(key \<mapsto> JString (FormatFloat x))))
               ParseFloat s data = (s', None)) \<and>
        (\<forall>t. fields' key = Some (JString t) \<longrightarrow>
             ParseFloat (numeric_text (Some (JString t))) = Inr (field s') \<and>
             (float64_wf (field s') \<and> ParseFloat (FormatFloat (field s')) = Inr (field s') \<longrightarrow>
                UnmarshalJSON (\<lambda>data. Inr (fields'(key \<mapsto> JNumber (field s'))))
                  ParseFloat s data = (s', None)))"
      unfolding kf prod.case by (rule float_field_uniform [OF k dec z p])
  qed
  from u i f show ?thesis by blast
qed

lemma Sprintf_int_7: "Sprintf_int 7 = ''7''"
  by (simp add: Sprintf_int_def digit_char_simps)

lemma Sprintf_int_million: "Sprintf_int 1000000 = ''1000000''"
  by (simp add: Sprintf_int_def digit_char_simps)

lemma ParseInt_million: "ParseInt ''1000000'' = Inr 1000000"
  by (simp add: ParseInt_def ParseUint_def is_digit_def digit_val_def)

lemma formatDigits_1e6: "formatDigits_g False \<lparr>d = ''1'', dp = 7\<rparr> = ''1e+06''"
  by (simp add: formatDigits_g_def fmtE_def nd_def byte_def digit_char_simps)

lemma ParseInt_1e6: "ParseInt ''1e+06'' = Inl (NumError ''ParseInt'' ''1e+06'' ErrSyntax)"
  by (simp add: ParseInt_def ParseUint_def is_digit_def digit_val_def)

lemma decode_payload_million_text:
  "decode_fields ParseFloat_ex s payload_million_text =
     (decode_strings
        (s\<lparr>VCpus := 1000000, RegionID := 0, PlanID := 0, PendingCharges := float64_zero,
           CurrentBandwidth := float64_zero, AllowedBandwidth := float64_zero\<rparr>)
        payload_million_text,
      None)"
  by (rule decode_fields_Inr)
     (simp_all add: payload_million_text_def numeric_text_def Sprintf_v_def ParseInt_million
        ParseInt_0 ParseFloat_ex_def)

theorem numeric_fields_uniform_witness:
  "ParseFloat_ex ''0'' = Inr float64_zero \<and>
   snd (UnmarshalJSON (\<lambda>data. Inr payload_ex) ParseFloat_ex Server_zero []) = None \<and>
   VCpus (fst (UnmarshalJSON (\<lambda>data. Inr payload_ex) ParseFloat_ex Server_zero [])) = 2 \<and>
   RegionID (fst (UnmarshalJSON (\<lambda>data. Inr payload_ex) ParseFloat_ex Server_zero [])) = 7 \<and>
   PlanID (fst (UnmarshalJSON (\<lambda>data. Inr payload_ex) ParseFloat_ex Server_zero [])) = 0 \<and>
   PendingCharges (fst (UnmarshalJSON (\<lambda>data. Inr payload_ex) ParseFloat_ex Server_zero []))
     = Finite False \<lparr>d = ''25'', dp = 1\<rparr> \<and>
   AllowedBandwidth (fst (UnmarshalJSON (\<lambda>data. Inr payload_ex) ParseFloat_ex Server_zero []))
     = float64_zero \<and>
   UnmarshalJSON (\<lambda>data. Inr (payload_ex(''vcpu_count'' \<mapsto> JString ''2''))) ParseFloat_ex
     Server_zero [] =
   UnmarshalJSON (\<lambda>data. Inr payload_ex) ParseFloat_ex Server_zero [] \<and>
   UnmarshalJSON
     (\<lambda>data. Inr (payload_ex(''DCID'' \<mapsto> JNumber (Finite False \<lparr>d = ''7'', dp = 1\<rparr>))))
     ParseFloat_ex Server_zero [] =
   UnmarshalJSON (\<lambda>data. Inr payload_ex) ParseFloat_ex Server_zero [] \<and>
   UnmarshalJSON (\<lambda>data. Inr (payload_ex(''pending_charges'' \<mapsto> JString ''2.5''))) ParseFloat_ex
     Server_zero [] =
   UnmarshalJSON (\<lambda>data. Inr payload_ex) ParseFloat_ex Server_zero [] \<and>
   snd (UnmarshalJSON (\<lambda>data. Inr payload_million_text) ParseFloat_ex Server_zero []) = None \<and>
   VCpus (fst (UnmarshalJSON (\<lambda>data. Inr payload_million_text) ParseFloat_ex Server_zero []))
     = 1000000 \<and>
   snd (UnmarshalJSON (\<lambda>data. Inr payload_million) ParseFloat_ex Server_zero []) =
     Some (NumError ''ParseInt'' ''1e+06'' ErrSyntax)"
proof -
  let ?r = "UnmarshalJSON (\<lambda>data. Inr payload_ex) ParseFloat_ex Server_zero []"
  let ?m = "UnmarshalJSON (\<lambda>data. Inr payload_million_text) ParseFloat_ex Server_zero []"
  have z: "ParseFloat_ex ''0'' = Inr float64_zero"
    by (simp add: ParseFloat_ex_def)
  have sn: "snd ?r = None"
    by (simp add: UnmarshalJSON_def decode_payload_ex)
  then have ok: "?r = (fst ?r, None)"
    by (simp add: prod_eq_iff)
  have sm: "snd ?m = None"
    by (simp add: UnmarshalJSON_def decode_payload_million_text)
  then have okm: "?m = (fst ?m, None)"
    by (simp add: prod_eq_iff)
  have k: "(''vcpu_count'', VCpus) \<in> set int_fields" "(''DCID'', RegionID) \<in> set int_fields"
    "(''VPSPLANID'', PlanID) \<in> set int_fields"
    "(''pending_charges'', PendingCharges) \<in> set float_fields"
    "(''allowed_bandwidth_gb'', AllowedBandwidth) \<in> set float_fields"
    by (simp_all add: int_fields_def float_fields_def)
  from numeric_fields_uniform [OF ok z] have
    i: "\<forall>(key, field)\<in>set int_fields.
        (payload_ex key = None \<or> payload_ex key = Some JNull \<longrightarrow> field (fst ?r) = 0) \<and>
        (\<forall>x. payload_ex key = Some (JNumber x) \<and> float64_wf x \<longrightarrow>
             prints_as_integer x \<and> field (fst ?r) = float64_int x \<and>
             UnmarshalJSON (\<lambda>data. Inr (payload_ex(key \<mapsto> JString (FormatFloat x))))
               ParseFloat_ex Server_zero [] = (fst ?r, None) \<and>
             UnmarshalJSON (\<lambda>data. Inr (payload_ex(key \<mapsto> JString (Sprintf_int (float64_int x)))))
               ParseFloat_ex Server_zero [] = (fst ?r, None)) \<and>
        (\<forall>t. payload_ex key = Some (JString t) \<longrightarrow>
             ParseInt (numeric_text (Some (JString t))) = Inr (field (fst ?r))) \<and>
        (\<forall>n. payload_ex key = Some (JString (Sprintf_int n)) \<longrightarrow>
             field (fst ?r) = n \<and>
             (\<forall>x. float64_wf x \<and> float64_int x = n \<and>
                  (prints_as_integer x \<or>
                   snd (UnmarshalJSON (\<lambda>data. Inr (payload_ex(key \<mapsto> JNumber x)))
                          ParseFloat_ex Server_zero []) = None) \<longrightarrow>
                  UnmarshalJSON (\<lambda>data. Inr (payload_ex(key \<mapsto> JNumber x)))
                    ParseFloat_ex Server_zero [] = (fst ?r, None)))"
    and f: "\<forall>(key, field)\<in>set float_fields.
        (payload_ex key = None \<or> payload_ex key = Some JNull \<longrightarrow> field (fst ?r) = float64_zero) \<and>
        (\<forall>x. payload_ex key = Some (JNumber x) \<longrightarrow>
             ParseFloat_ex (numeric_text (Some (JNumber x))) = Inr (field (fst ?r)) \<and>
             (float64_wf x \<and> ParseFloat_ex (FormatFloat x) = Inr x \<longrightarrow> field (fst ?r) = x) \<and>
             UnmarshalJSON (\<lambda>data. Inr (payload_ex(key \<mapsto> JString (FormatFloat x))))
               ParseFloat_ex Server_zero [] = (fst ?r, None)) \<and>
        (\<forall>t. payload_ex key = Some (JString t) \<longrightarrow>
             ParseFloat_ex (numeric_text (Some (JString t))) = Inr (field (fst ?r)) \<and>
             (float64_wf (field (fst ?r)) \<and> ParseFloat_ex (FormatFloat (field (fst ?r))) = Inr (field (fst ?r)) \<longrightarrow>
                UnmarshalJSON (\<lambda>data. Inr (payload_ex(key \<mapsto> JNumber (field (fst ?r)))))
                  ParseFloat_ex Server_zero [] = (fst ?r, None)))"
    by auto
  from numeric_fields_uniform [OF okm z] have
    j: "\<forall>(key, field)\<in>set int_fields.
        (payload_million_text key = None \<or> payload_million_text key = Some JNull \<longrightarrow> field (fst ?m) = 0) \<and>
        (\<forall>x. payload_million_text key = Some (JNumber x) \<and> float64_wf x \<longrightarrow>
             prints_as_integer x \<and> field (fst ?m) = float64_int x \<and>
             UnmarshalJSON (\<lambda>data. Inr (payload_million_text(key \<mapsto> JString (FormatFloat x))))
               ParseFloat_ex Server_zero [] = (fst ?m, None) \<and>
             UnmarshalJSON (\<lambda>data. Inr (payload_million_text(key \<mapsto> JString (Sprintf_int (float64_int x)))))
               ParseFloat_ex Server_zero [] = (fst ?m, None)) \<and>
        (\<forall>t. payload_million_text key = Some (JString t) \<longrightarrow>
             ParseInt (numeric_text (Some (JString t))) = Inr (field (fst ?m))) \<and>
        (\<forall>n. payload_million_text key = Some (JString (Sprintf_int n)) \<longrightarrow>
             field (fst ?m) = n \<and>
             (\<forall>x. float64_wf x \<and> float64_int x = n \<and>
                  (prints_as_integer x \<or>
                   snd (UnmarshalJSON (\<lambda>data. Inr (payload_million_text(key \<mapsto> JNumber x)))
                          ParseFloat_ex Server_zero []) = None) \<longrightarrow>
                  UnmarshalJSON (\<lambda>data. Inr (payload_million_text(key \<mapsto> JNumber x)))
                    ParseFloat_ex Server_zero [] = (fst ?m, None)))"
    by auto
  have v: "payload_ex ''vcpu_count'' = Some (JNumber (Finite False \<lparr>d = ''2'', dp = 1\<rparr>))"
    "float64_wf (Finite False \<lparr>d = ''2'', dp = 1\<rparr>)"
    "float64_int (Finite False \<lparr>d = ''2'', dp = 1\<rparr>) = 2"
    "payload_ex ''VPSPLANID'' = None" "payload_ex ''allowed_bandwidth_gb'' = None"
    "payload_ex ''pending_charges'' = Some (JNumber (Finite False \<lparr>d = ''25'', dp = 1\<rparr>))"
    "float64_wf (Finite False \<lparr>d = ''25'', dp = 1\<rparr>)"
    "payload_ex ''DCID'' = Some (JString (Sprintf_int 7))"
    "float64_wf (Finite False \<lparr>d = ''7'', dp = 1\<rparr>)"
    "float64_int (Finite False \<lparr>d = ''7'', dp = 1\<rparr>) = 7"
    "prints_as_integer (Finite False \<lparr>d = ''7'', dp = 1\<rparr>)"
    "payload_million_text ''vcpu_count'' = Some (JString (Sprintf_int 1000000))"
    by (simp_all add: payload_ex_def payload_million_text_def float64_wf_def float64_int_def
        is_digit_def digits_val_def digit_val_def nd_def prints_as_integer_def Sprintf_int_7
        Sprintf_int_million)
  from bspec [OF i k(1)] v(1-3) have a: "VCpus (fst ?r) = 2"
    "UnmarshalJSON (\<lambda>data. Inr (payload_ex(''vcpu_count'' \<mapsto> JString ''2''))) ParseFloat_ex
       Server_zero [] = (fst ?r, None)"
    by (simp_all add: FormatFloat_2)
  from bspec [OF i k(2)] v(8-11) have b: "RegionID (fst ?r) = 7"
    "UnmarshalJSON
       (\<lambda>data. Inr (payload_ex(''DCID'' \<mapsto> JNumber (Finite False \<lparr>d = ''7'', dp = 1\<rparr>))))
       ParseFloat_ex Server_zero [] = (fst ?r, None)"
    by blast+
  from bspec [OF i k(3)] v(4) have c: "PlanID (fst ?r) = 0"
    by simp
  from bspec [OF f k(4)] v(6,7) have d:
    "PendingCharges (fst ?r) = Finite False \<lparr>d = ''25'', dp = 1\<rparr>"
    "UnmarshalJSON (\<lambda>data. Inr (payload_ex(''pending_charges'' \<mapsto> JString ''2.5''))) ParseFloat_ex
       Server_zero [] = (fst ?r, None)"
    by (simp_all add: FormatFloat_2_5 ParseFloat_ex_def)
  from bspec [OF f k(5)] v(5) have e: "AllowedBandwidth (fst ?r) = float64_zero"
    by simp
  from bspec [OF j k(1)] v(12) have g: "VCpus (fst ?m) = 1000000"
    by blast
  have n: "numeric_text (payload_million ''vcpu_count'') = ''1e+06''"
    by (simp add: payload_million_def numeric_text_def Sprintf_v_def formatDigits_1e6)
  have h: "snd (UnmarshalJSON (\<lambda>data. Inr payload_million) ParseFloat_ex Server_zero []) =
     Some (NumError ''ParseInt'' ''1e+06'' ErrSyntax)"
    by (simp add: UnmarshalJSON_def decode_fields_def n ParseInt_1e6)
  from z sn a b c d e sm g h ok show ?thesis by simp
qed

section \<open>Integer fields: numbers that are refused\<close>

lemma ParseInt_Inl:
  "ParseInt s = Inl e \<Longrightarrow> \<exists>kind. e = NumError ''ParseInt'' s kind"
  by (auto simp: ParseInt_def Let_def split: sum.splits strconv_err.splits if_splits)

lemma decode_fields_int_error:
  assumes "(key, field) \<in> set int_fields"
    and "ParseInt (numeric_text (fields' key)) = Inl e"
  shows "\<exists>err. snd (decode_fields ParseFloat s fields') = Some err"
  using assms by (auto simp: decode_fields_def int_fields_def Let_def split: sum.splits)

text \<open>
  C10. A JSON number in an integer field that does not print as a plain decimal integer
  (it has a fraction, or its decimal point is beyond position 6, so that \<^verbatim>\<open>%v\<close> prints an
  exponent) is refused by \<^verbatim>\<open>ParseInt\<close> as a syntax error, and the decode fails.
\<close>

theorem integer_field_rejects_number:
  assumes k: "(key, field) \<in> set int_fields"
    and u: "json_Unmarshal data = Inr fields'"
    and num: "fields' key = Some (JNumber x)"
    and wf: "float64_wf x"
    and np: "\<not> prints_as_integer x"
  shows "ParseInt (numeric_text (fields' key)) =
           Inl (NumError ''ParseInt'' (FormatFloat x) ErrSyntax) \<and>
         (\<exists>err. snd (UnmarshalJSON json_Unmarshal ParseFloat s data) = Some err)"
proof -
  have t: "numeric_text (fields' key) = FormatFloat x"
    using num wf by (simp add: numeric_text_JNumber)
  have a: "ParseInt (numeric_text (fields' key)) =
             Inl (NumError ''ParseInt'' (FormatFloat x) ErrSyntax)"
    unfolding t by (rule ParseInt_FormatFloat_syntax [OF wf np])
  from decode_fields_int_error [of key field fields', OF k a]
  have "\<exists>err. snd (UnmarshalJSON json_Unmarshal ParseFloat s data) = Some err"
    using u by (simp add: UnmarshalJSON_def)
  with a show ?thesis by blast
qed

lemma formatDigits_1e7: "formatDigits_g False \<lparr>d = ''1'', dp = 8\<rparr> = ''1e+07''"
  by (simp add: formatDigits_g_def fmtE_def nd_def byte_def digit_char_simps)

lemma ParseInt_2_5: "ParseInt ''2.5'' = Inl (NumError ''ParseInt'' ''2.5'' ErrSyntax)"
  by (simp add: ParseInt_def ParseUint_def is_digit_def digit_val_def)

lemma ParseInt_1e7: "ParseInt ''1e+07'' = Inl (NumError ''ParseInt'' ''1e+07'' ErrSyntax)"
  by (simp add: ParseInt_def ParseUint_def is_digit_def digit_val_def)

theorem integer_field_rejects_number_witness:
  "float64_wf (Finite False \<lparr>d = ''25'', dp = 1\<rparr>) \<and>
   \<not> prints_as_integer (Finite False \<lparr>d = ''25'', dp = 1\<rparr>) \<and>
   FormatFloat (Finite False \<lparr>d = ''25'', dp = 1\<rparr>) = ''2.5'' \<and>
   ParseInt (numeric_text (payload_fraction ''vcpu_count'')) =
     Inl (NumError ''ParseInt'' ''2.5'' ErrSyntax) \<and>
   snd (UnmarshalJSON (\<lambda>data. Inr payload_fraction) ParseFloat_ex Server_zero []) =
     Some (NumError ''ParseInt'' ''2.5'' ErrSyntax) \<and>
   float64_wf (Finite False \<lparr>d = ''1'', dp = 8\<rparr>) \<and>
   \<not> prints_as_integer (Finite False \<lparr>d = ''1'', dp = 8\<rparr>) \<and>
   FormatFloat (Finite False \<lparr>d = ''1'', dp = 8\<rparr>) = ''1e+07'' \<and>
   ParseInt (numeric_text (payload_large ''DCID'')) =
     Inl (NumError ''ParseInt'' ''1e+07'' ErrSyntax) \<and>
   snd (UnmarshalJSON (\<lambda>data. Inr payload_large) ParseFloat_ex Server_zero []) =
     Some (NumError ''ParseInt'' ''1e+07'' ErrSyntax)"
proof -
  have k: "(''vcpu_count'', VCpus) \<in> set int_fields" "(''DCID'', RegionID) \<in> set int_fields"
    by (simp_all add: int_fields_def)
  have wf: "float64_wf (Finite False \<lparr>d = ''25'', dp = 1\<rparr>)"
    "float64_wf (Finite False \<lparr>d = ''1'', dp = 8\<rparr>)"
    by (simp_all add: float64_wf_def is_digit_def)
  have np: "\<not> prints_as_integer (Finite False \<lparr>d = ''25'', dp = 1\<rparr>)"
    "\<not> prints_as_integer (Finite False \<lparr>d = ''1'', dp = 8\<rparr>)"
    by (simp_all add: prints_as_integer_def nd_def)
  have f: "payload_fraction ''vcpu_count'' = Some (JNumber (Finite False \<lparr>d = ''25'', dp = 1\<rparr>))"
    and l: "payload_large ''DCID'' = Some (JNumber (Finite False \<lparr>d = ''1'', dp = 8\<rparr>))"
    by (simp_all add: payload_fraction_def payload_large_def)
  have nt: "numeric_text (payload_fraction ''vcpu_count'') = ''2.5''"
    "numeric_text (payload_large ''DCID'') = ''1e+07''"
    by (simp_all add: payload_fraction_def payload_large_def numeric_text_def Sprintf_v_def
        FormatFloat_2_5 formatDigits_1e7)
  have u: "(\<lambda>data. Inr payload_fraction) [] = Inr payload_fraction"
    "(\<lambda>data. Inr payload_large) [] = Inr payload_large"
    by simp_all
  from integer_field_rejects_number
    [where key = "''vcpu_count''" and field = VCpus and fields' = payload_fraction
       and json_Unmarshal = "\<lambda>data. Inr payload_fraction" and data = "[]"
       and ParseFloat = ParseFloat_ex and s = Server_zero,
     OF k(1) u(1) f wf(1) np(1)]
  have a: "ParseInt (numeric_text (payload_fraction ''vcpu_count'')) =
     Inl (NumError ''ParseInt'' ''2.5'' ErrSyntax)"
    by (simp add: nt ParseInt_2_5 FormatFloat_2_5)
  from integer_field_rejects_number
    [where key = "''DCID''" and field = RegionID and fields' = payload_large
       and json_Unmarshal = "\<lambda>data. Inr payload_large" and data = "[]"
       and ParseFloat = ParseFloat_ex and s = Server_zero,
     OF k(2) u(2) l wf(2) np(2)]
  have b: "ParseInt (numeric_text (payload_large ''DCID'')) =
     Inl (NumError ''ParseInt'' ''1e+07'' ErrSyntax)"
    by (simp add: nt ParseInt_1e7 formatDigits_1e7)
  have c: "snd (UnmarshalJSON (\<lambda>data. Inr payload_fraction) ParseFloat_ex Server_zero []) =
     Some (NumError ''ParseInt'' ''2.5'' ErrSyntax)"
    using a by (simp add: UnmarshalJSON_def decode_fields_def)
  have n: "numeric_text (payload_large ''vcpu_count'') = ''0''"
    by (simp add: payload_large_def)
  have d: "snd (UnmarshalJSON (\<lambda>data. Inr payload_large) ParseFloat_ex Server_zero []) =
     Some (NumError ''ParseInt'' ''1e+07'' ErrSyntax)"
    using b n by (simp add: UnmarshalJSON_def decode_fields_def ParseInt_0)
  from wf np a b c d show ?thesis
    by (simp add: FormatFloat_2_5 formatDigits_1e7)
qed

section \<open>String fields\<close>

lemma decode_strings_strings:
  "ID (decode_strings s fields') = Sprintf_v (fields' ''SUBID'')"
  "Name (decode_strings s fields') = Sprintf_v (fields' ''label'')"
  "OS (decode_strings s fields') = Sprintf_v (fields' ''os'')"
  "RAM (decode_strings s fields') = Sprintf_v (fields' ''ram'')"
  "Disk (decode_strings s fields') = Sprintf_v (fields' ''disk'')"
  "MainIP (decode_strings s fields') = Sprintf_v (fields' ''main_ip'')"
  "Location (decode_strings s fields') = Sprintf_v (fields' ''location'')"
  "DefaultPassword (decode_strings s fields') = Sprintf_v (fields' ''default_password'')"
  "Created (decode_strings s fields') = Sprintf_v (fields' ''date_created'')"
  "Status (decode_strings s fields') = Sprintf_v (fields' ''status'')"
  "Cost (decode_strings s fields') = Sprintf_v (fields' ''cost_per_month'')"
  "NetmaskV4 (decode_strings s fields') = Sprintf_v (fields' ''netmask_v4'')"
  "GatewayV4 (decode_strings s fields') = Sprintf_v (fields' ''gateway_v4'')"
  "PowerStatus (decode_strings s fields') = Sprintf_v (fields' ''power_status'')"
  "ServerState (decode_strings s fields') = Sprintf_v (fields' ''server_state'')"
  "InternalIP (decode_strings s fields') = Sprintf_v (fields' ''internal_ip'')"
  "KVMUrl (decode_strings s fields') = Sprintf_v (fields' ''kvm_url'')"
  "AutoBackups (decode_strings s fields') = Sprintf_v (fields' ''auto_backups'')"
  "Tag (decode_strings s fields') = Sprintf_v (fields' ''tag'')"
  by (simp_all add: decode_strings_def Let_def split: option.split json.split)

lemma Sprintf_v_cases:
  "Sprintf_v v = t \<Longrightarrow>
   (v = None \<longrightarrow> t = ''<nil>'' \<and> t \<noteq> []) \<and>
   (\<forall>u. v = Some (JString u) \<longrightarrow> t = u) \<and>
   (\<forall>x. v = Some (JNumber x) \<longrightarrow> t = FormatFloat x)"
  by (auto simp: Sprintf_v_def)

text \<open>
  C6. After a successful decode every string field is the \<^verbatim>\<open>%v\<close> rendering of its map
  entry: the text \<^verbatim>\<open><nil>\<close>, not the empty text, when the key is absent; the string
  itself when the entry is a string; the printed number when it is a number.
\<close>

theorem string_fields_rendered:
  assumes ok: "UnmarshalJSON json_Unmarshal ParseFloat s data = (s', None)"
  shows "\<exists>fields'. json_Unmarshal data = Inr fields' \<and>
     (\<forall>(key, field)\<in>set string_fields.
        field s' = Sprintf_v (fields' key) \<and>
        (fields' key = None \<longrightarrow> field s' = ''<nil>'' \<and> field s' \<noteq> []) \<and>
        (\<forall>t. fields' key = Some (JString t) \<longrightarrow> field s' = t) \<and>
        (\<forall>x. fields' key = Some (JNumber x) \<longrightarrow> field s' = FormatFloat x))"
proof -
  from UnmarshalJSON_None [OF ok] obtain fields' where
    u: "json_Unmarshal data = Inr fields'" and dec: "decode_fields ParseFloat s fields' = (s', None)"
    by blast
  from decode_fields_None [OF dec] obtain t where s': "s' = decode_strings t fields'"
    by blast
  have r: "\<forall>(key, field)\<in>set string_fields. field s' = Sprintf_v (fields' key)"
    unfolding s' string_fields_def by (simp add: decode_strings_strings)
  have "\<forall>(key, field)\<in>set string_fields.
        field s' = Sprintf_v (fields' key) \<and>
        (fields' key = None \<longrightarrow> field s' = ''<nil>'' \<and> field s' \<noteq> []) \<and>
        (\<forall>t. fields' key = Some (JString t) \<longrightarrow> field s' = t) \<and>
        (\<forall>x. fields' key = Some (JNumber x) \<longrightarrow> field s' = FormatFloat x)"
  proof (intro ballI, clarify)
    fix key field
    assume "(key, field) \<in> set string_fields"
    with r have e: "Sprintf_v (fields' key) = field s'" by auto
    from Sprintf_v_cases [OF e] e
    show "field s' = Sprintf_v (fields' key) \<and>
        (fields' key = None \<longrightarrow> field s' = ''<nil>'' \<and> field s' \<noteq> []) \<and>
        (\<forall>t. fields' key = Some (JString t) \<longrightarrow> field s' = t) \<and>
        (\<forall>x. fields' key = Some (JNumber x) \<longrightarrow> field s' = FormatFloat x)"
      by simp
  qed
  with u show ?thesis by blast
qed

theorem string_fields_rendered_witness:
  "snd (UnmarshalJSON (\<lambda>data. Inr post_payload) ParseFloat_ex Server_zero []) = None \<and>
   ID (fst (UnmarshalJSON (\<lambda>data. Inr post_payload) ParseFloat_ex Server_zero [])) = ''576965'' \<and>
   RAM (fst (UnmarshalJSON (\<lambda>data. Inr post_payload) ParseFloat_ex Server_zero [])) = ''2.5'' \<and>
   Tag (fst (UnmarshalJSON (\<lambda>data. Inr post_payload) ParseFloat_ex Server_zero [])) = ''<nil>''"
proof -
  let ?r = "UnmarshalJSON (\<lambda>data. Inr post_payload) ParseFloat_ex Server_zero []"
  have n: "numeric_text (post_payload ''vcpu_count'') = ''0''"
    "numeric_text (post_payload ''DCID'') = ''9''"
    "numeric_text (post_payload ''VPSPLANID'') = ''0''"
    "numeric_text (post_payload ''pending_charges'') = ''0''"
    "numeric_text (post_payload ''current_bandwidth_gb'') = ''0''"
    "numeric_text (post_payload ''allowed_bandwidth_gb'') = ''0''"
    by (simp_all add: post_payload_def numeric_text_def Sprintf_v_def)
  have "snd (decode_fields ParseFloat_ex Server_zero post_payload) = None"
    by (subst decode_fields_Inr) (simp_all add: n ParseInt_0 ParseInt_9 ParseFloat_ex_def)
  then have sn: "snd ?r = None"
    by (simp add: UnmarshalJSON_def)
  then have ok: "?r = (fst ?r, None)"
    by (simp add: prod_eq_iff)
  from string_fields_rendered [OF ok] have
    a: "\<forall>(key, field)\<in>set string_fields.
        field (fst ?r) = Sprintf_v (post_payload key) \<and>
        (post_payload key = None \<longrightarrow> field (fst ?r) = ''<nil>'' \<and> field (fst ?r) \<noteq> []) \<and>
        (\<forall>t. post_payload key = Some (JString t) \<longrightarrow> field (fst ?r) = t) \<and>
        (\<forall>x. post_payload key = Some (JNumber x) \<longrightarrow> field (fst ?r) = FormatFloat x)"
    by auto
  have p: "post_payload ''SUBID'' = Some (JString ''576965'')"
    "post_payload ''ram'' = Some (JNumber (Finite False \<lparr>d = ''25'', dp = 1\<rparr>))"
    "post_payload ''tag'' = None"
    by (simp_all add: post_payload_def)
  have "(''SUBID'', ID) \<in> set string_fields" "(''ram'', RAM) \<in> set string_fields"
    "(''tag'', Tag) \<in> set string_fields"
    by (simp_all add: string_fields_def)
  with a p have "ID (fst ?r) = ''576965''" "RAM (fst ?r) = ''2.5''" "Tag (fst ?r) = ''<nil>''"
    by (auto simp: FormatFloat_2_5)
  with sn show ?thesis by simp
qed

section \<open>The nested networks\<close>

lemma v6networks_loop_objects:
  "v6networks_loop networks v6networks = v6networks @ map v6network_of (objects networks)"
  by (induction networks v6networks rule: v6networks_loop.induct) simp_all

lemma objects_all:
  "\<forall>n\<in>set networks. \<exists>kvs. n = JObject kvs \<Longrightarrow> length (objects networks) = length networks"
  by (induction networks rule: objects.induct) auto

lemma decode_strings_V6Networks:
  "V6Networks (decode_strings s fields') =
     (case fields' ''v6_networks'' of
        Some (JArray networks) \<Rightarrow> map v6network_of (objects networks)
      | _ \<Rightarrow> V6Networks s)"
  by (simp add: decode_strings_def Let_def v6networks_loop_objects split: option.split json.split)

lemma decode_fields_v6_error:
  "snd (decode_fields ParseFloat s (fields'(''v6_networks'' := v))) =
   snd (decode_fields ParseFloat s fields')"
  by (simp add: decode_fields_def Let_def split: sum.split)

lemma decode_absent:
  assumes "\<forall>key\<in>{''vcpu_count'', ''DCID'', ''VPSPLANID'', ''pending_charges'',
                 ''current_bandwidth_gb'', ''allowed_bandwidth_gb''}.
             numeric_text (fields' key) = ''0''"
  shows "snd (decode_fields ParseFloat_ex s fields') = None"
proof -
  have "decode_fields ParseFloat_ex s fields' =
          (decode_strings
             (s\<lparr>VCpus := 0, RegionID := 0, PlanID := 0, PendingCharges := float64_zero,
                CurrentBandwidth := float64_zero, AllowedBandwidth := float64_zero\<rparr>) fields',
           None)"
    by (rule decode_fields_Inr) (use assms in \<open>simp_all add: ParseInt_0 ParseFloat_ex_def\<close>)
  then show ?thesis by simp
qed

text \<open>
  C7, as stated, fails when the decode target already holds descriptors: the assignment
  to \<^verbatim>\<open>s.V6Networks\<close> is inside the branch taken for an array, so the payload
  \<^verbatim>\<open>{}\<close>, which has no \<^verbatim>\<open>v6_networks\<close> key, decodes successfully and the target keeps
  its descriptor.
\<close>

theorem v6_networks_stale_target:
  "Map.empty ''v6_networks'' = (None :: json option) \<and>
   snd (UnmarshalJSON (\<lambda>data. Inr Map.empty) ParseFloat_ex Server_with_network []) = None \<and>
   V6Networks (fst (UnmarshalJSON (\<lambda>data. Inr Map.empty) ParseFloat_ex Server_with_network [])) =
     [\<lparr>Network = ''2001:db8::'', V6MainIP = ''2001:db8::1'', NetworkSize = ''64''\<rparr>] \<and>
   V6Networks (fst (UnmarshalJSON (\<lambda>data. Inr Map.empty) ParseFloat_ex Server_with_network []))
     \<noteq> []"
proof -
  have d: "decode_fields ParseFloat_ex Server_with_network Map.empty =
          (decode_strings
             (Server_with_network\<lparr>VCpus := 0, RegionID := 0, PlanID := 0,
                PendingCharges := float64_zero, CurrentBandwidth := float64_zero,
                AllowedBandwidth := float64_zero\<rparr>) Map.empty, None)"
    by (rule decode_fields_Inr) (simp_all add: ParseInt_0 ParseFloat_ex_def)
  show ?thesis
    unfolding UnmarshalJSON_def
    by (simp add: d decode_strings_V6Networks) (simp add: Server_with_network_def)
qed

text \<open>
  C7, amended. After a successful decode into an entity that holds no networks (the zero
  value that every method of the client decodes into), \<^verbatim>\<open>V6Networks\<close> is empty when the
  key is absent or its value is not an array; for an array it holds one descriptor per
  object of the array, in order, with the three sub-fields rendered as text, so an empty
  array gives none and an array of objects gives as many as it has elements. Whatever
  the entry holds, the decode does not fail because of it.
\<close>

theorem v6_networks_decoded:
  assumes ok: "UnmarshalJSON json_Unmarshal ParseFloat s data = (s', None)"
    and fresh: "V6Networks s = []"
  shows "\<exists>fields'. json_Unmarshal data = Inr fields' \<and>
     (case fields' ''v6_networks'' of
        Some (JArray networks) \<Rightarrow>
          V6Networks s' = map v6network_of (objects networks) \<and>
          ((\<forall>n\<in>set networks. \<exists>kvs. n = JObject kvs) \<longrightarrow>
             length (V6Networks s') = length networks)
      | _ \<Rightarrow> V6Networks s' = []) \<and>
     (\<forall>v. snd (UnmarshalJSON (\<lambda>data. Inr (fields'(''v6_networks'' := v))) ParseFloat s data)
            = None)"
proof -
  from UnmarshalJSON_None [OF ok] obtain fields' where
    u: "json_Unmarshal data = Inr fields'" and dec: "decode_fields ParseFloat s fields' = (s', None)"
    by blast
  from decode_fields_None [OF dec] obtain t where s': "s' = decode_strings t fields'"
    and t: "V6Networks t = V6Networks s"
    by auto
  have a: "(case fields' ''v6_networks'' of
        Some (JArray networks) \<Rightarrow>
          V6Networks s' = map v6network_of (objects networks) \<and>
          ((\<forall>n\<in>set networks. \<exists>kvs. n = JObject kvs) \<longrightarrow>
             length (V6Networks s') = length networks)
      | _ \<Rightarrow> V6Networks s' = [])"
    unfolding s' decode_strings_V6Networks using t fresh
    by (simp add: objects_all split: option.split json.split)
  have b: "\<forall>v. snd (UnmarshalJSON (\<lambda>data. Inr (fields'(''v6_networks'' := v))) ParseFloat s data)
            = None"
    using dec by (simp add: UnmarshalJSON_def decode_fields_v6_error)
  from u a b show ?thesis by blast
qed

theorem v6_networks_decoded_witness:
  "snd (UnmarshalJSON (\<lambda>data. Inr payload_networks) ParseFloat_ex Server_zero []) = None \<and>
   V6Networks Server_zero = [] \<and>
   V6Networks (fst (UnmarshalJSON (\<lambda>data. Inr payload_networks) ParseFloat_ex Server_zero [])) =
     [\<lparr>Network = ''2001:db8::'', V6MainIP = ''<nil>'', NetworkSize = ''64''\<rparr>] \<and>
   snd (UnmarshalJSON (\<lambda>data. Inr (payload_networks(''v6_networks'' := Some (JString ''none''))))
          ParseFloat_ex Server_zero []) = None"
proof -
  let ?r = "UnmarshalJSON (\<lambda>data. Inr payload_networks) ParseFloat_ex Server_zero []"
  have "\<forall>key\<in>{''vcpu_count'', ''DCID'', ''VPSPLANID'', ''pending_charges'',
                 ''current_bandwidth_gb'', ''allowed_bandwidth_gb''}.
          numeric_text (payload_networks key) = ''0''"
    by (simp add: payload_networks_def numeric_text_def Sprintf_v_def)
  then have sn: "snd ?r = None"
    unfolding UnmarshalJSON_def by (simp add: decode_absent)
  then have ok: "?r = (fst ?r, None)"
    by (simp add: prod_eq_iff)
  have fresh: "V6Networks Server_zero = []"
    by (simp add: Server_zero_def)
  have f64: "formatDigits_g False \<lparr>d = ''64'', dp = 2\<rparr> = ''64''"
    by (simp add: formatDigits_g_def fmtF_def nd_def)
  from v6_networks_decoded [OF ok fresh] have
    a: "(case payload_networks ''v6_networks'' of
        Some (JArray networks) \<Rightarrow>
          V6Networks (fst ?r) = map v6network_of (objects networks) \<and>
          ((\<forall>n\<in>set networks. \<exists>kvs. n = JObject kvs) \<longrightarrow>
             length (V6Networks (fst ?r)) = length networks)
      | _ \<Rightarrow> V6Networks (fst ?r) = [])"
    and b: "\<forall>v. snd (UnmarshalJSON (\<lambda>data. Inr (payload_networks(''v6_networks'' := v)))
                       ParseFloat_ex Server_zero []) = None"
    by auto
  from a have "V6Networks (fst ?r) =
     [\<lparr>Network = ''2001:db8::'', V6MainIP = ''<nil>'', NetworkSize = ''64''\<rparr>]"
    by (simp add: payload_networks_def v6network_of_def Sprintf_v_def f64)
  with sn fresh b show ?thesis by simp
qed

section \<open>When the decode fails\<close>

lemma ParseInt_abc: "ParseInt ''abc'' = Inl (NumError ''ParseInt'' ''abc'' ErrSyntax)"
  by (simp add: ParseInt_def ParseUint_def is_digit_def)

lemma ParseInt_empty: "ParseInt [] = Inl (NumError ''ParseInt'' [] ErrSyntax)"
  by (simp add: ParseInt_def)

lemma numeric_text_abc:
  "numeric_text (payload_abc_vcpu ''vcpu_count'') = ''abc''"
  "numeric_text (payload_abc_region ''vcpu_count'') = ''0''"
  "numeric_text (payload_abc_region ''DCID'') = ''abc''"
  by (simp_all add: payload_abc_vcpu_def payload_abc_region_def numeric_text_def Sprintf_v_def)

text \<open>
  C5, as stated, fails twice. The error of a failed conversion is the
  \<^verbatim>\<open>*strconv.NumError\<close> as \<^verbatim>\<open>ParseInt\<close> returned it: it holds the name of the conversion
  and the offending text, so the text \<^verbatim>\<open>abc\<close> in \<^verbatim>\<open>vcpu_count\<close> and the same text in
  \<^verbatim>\<open>DCID\<close> give the same error, which names neither field. And the empty string is a
  present, non-null value that \<^verbatim>\<open>ParseInt\<close> rejects, yet the decode succeeds, reading
  it as zero.
\<close>

theorem coercion_error_names_no_field:
  "snd (UnmarshalJSON (\<lambda>data. Inr payload_abc_vcpu) ParseFloat_ex Server_zero []) =
     Some (NumError ''ParseInt'' ''abc'' ErrSyntax) \<and>
   snd (UnmarshalJSON (\<lambda>data. Inr payload_abc_region) ParseFloat_ex Server_zero []) =
     Some (NumError ''ParseInt'' ''abc'' ErrSyntax) \<and>
   payload_empty_text ''vcpu_count'' = Some (JString []) \<and>
   ParseInt [] = Inl (NumError ''ParseInt'' [] ErrSyntax) \<and>
   snd (UnmarshalJSON (\<lambda>data. Inr payload_empty_text) ParseFloat_ex Server_zero []) = None \<and>
   VCpus (fst (UnmarshalJSON (\<lambda>data. Inr payload_empty_text) ParseFloat_ex Server_zero [])) = 0"
proof -
  have a: "snd (UnmarshalJSON (\<lambda>data. Inr payload_abc_vcpu) ParseFloat_ex Server_zero []) =
     Some (NumError ''ParseInt'' ''abc'' ErrSyntax)"
    by (simp add: UnmarshalJSON_def decode_fields_def numeric_text_abc ParseInt_abc)
  have b: "snd (UnmarshalJSON (\<lambda>data. Inr payload_abc_region) ParseFloat_ex Server_zero []) =
     Some (NumError ''ParseInt'' ''abc'' ErrSyntax)"
    by (simp add: UnmarshalJSON_def decode_fields_def numeric_text_abc ParseInt_abc ParseInt_0)
  have n: "\<forall>key\<in>{''vcpu_count'', ''DCID'', ''VPSPLANID'', ''pending_charges'',
                 ''current_bandwidth_gb'', ''allowed_bandwidth_gb''}.
          numeric_text (payload_empty_text key) = ''0''"
    by (simp add: payload_empty_text_def numeric_text_def Sprintf_v_def)
  have d: "decode_fields ParseFloat_ex Server_zero payload_empty_text =
          (decode_strings
             (Server_zero\<lparr>VCpus := 0, RegionID := 0, PlanID := 0, PendingCharges := float64_zero,
                CurrentBandwidth := float64_zero, AllowedBandwidth := float64_zero\<rparr>)
             payload_empty_text, None)"
    by (rule decode_fields_Inr) (use n in \<open>simp_all add: ParseInt_0 ParseFloat_ex_def\<close>)
  have c: "snd (UnmarshalJSON (\<lambda>data. Inr payload_empty_text) ParseFloat_ex Server_zero []) = None"
    "VCpus (fst (UnmarshalJSON (\<lambda>data. Inr payload_empty_text) ParseFloat_ex Server_zero [])) = 0"
    by (simp_all add: UnmarshalJSON_def d)
  have e: "payload_empty_text ''vcpu_count'' = Some (JString [])"
    by (simp add: payload_empty_text_def)
  from a b c e ParseInt_empty show ?thesis by simp
qed

lemma first_error_None:
  "first_error rs = None \<longleftrightarrow> (\<forall>r\<in>set rs. \<exists>u. r = Inr u)"
  by (induction rs rule: first_error.induct) auto

lemma decode_fields_first_error:
  "snd (decode_fields ParseFloat s fields') = first_error (coercions ParseFloat fields')"
  by (simp add: decode_fields_def coercions_def int_fields_def float_fields_def Let_def
      split: sum.split)

lemma coercions_accept:
  "(\<forall>r\<in>set (coercions ParseFloat fields'). \<exists>u. r = Inr u) \<longleftrightarrow>
   (\<forall>key\<in>set (map fst int_fields). \<exists>v. ParseInt (numeric_text (fields' key)) = Inr v) \<and>
   (\<forall>key\<in>set (map fst float_fields). \<exists>v. ParseFloat (numeric_text (fields' key)) = Inr v)"
  by (auto simp: coercions_def int_fields_def float_fields_def map_sum_def split: sum.splits)

text \<open>
  C5, amended. The decode fails exactly when the top-level parse fails or one of the six
  conversions rejects its text, the text being the \<^verbatim>\<open>%v\<close> rendering of the entry with
  absent, null, empty and \<^verbatim>\<open><nil>\<close> read as \<^verbatim>\<open>0\<close>. The error returned is that of the
  parse, or of the first conversion that fails in the order of the source; the error of
  a failed integer conversion names \<^verbatim>\<open>ParseInt\<close> and the offending text.
\<close>

theorem decode_fails_only_by_coercion:
  "snd (UnmarshalJSON json_Unmarshal ParseFloat s data) =
     (case json_Unmarshal data of
        Inl err \<Rightarrow> Some err
      | Inr fields' \<Rightarrow> first_error (coercions ParseFloat fields')) \<and>
   (\<forall>fields'. json_Unmarshal data = Inr fields' \<longrightarrow>
      (snd (UnmarshalJSON json_Unmarshal ParseFloat s data) = None \<longleftrightarrow>
         (\<forall>key\<in>set (map fst int_fields). \<exists>v. ParseInt (numeric_text (fields' key)) = Inr v) \<and>
         (\<forall>key\<in>set (map fst float_fields).
             \<exists>v. ParseFloat (numeric_text (fields' key)) = Inr v))) \<and>
   (\<forall>num e. ParseInt num = Inl e \<longrightarrow> (\<exists>kind. e = NumError ''ParseInt'' num kind))"
proof (intro conjI allI impI)
  show "snd (UnmarshalJSON json_Unmarshal ParseFloat s data) =
     (case json_Unmarshal data of
        Inl err \<Rightarrow> Some err
      | Inr fields' \<Rightarrow> first_error (coercions ParseFloat fields'))"
    by (simp add: UnmarshalJSON_def decode_fields_first_error split: sum.split)
next
  fix fields'
  assume "json_Unmarshal data = Inr fields'"
  then have "snd (UnmarshalJSON json_Unmarshal ParseFloat s data) =
               first_error (coercions ParseFloat fields')"
    by (simp add: UnmarshalJSON_def decode_fields_first_error)
  then show "snd (UnmarshalJSON json_Unmarshal ParseFloat s data) = None \<longleftrightarrow>
         (\<forall>key\<in>set (map fst int_fields). \<exists>v. ParseInt (numeric_text (fields' key)) = Inr v) \<and>
         (\<forall>key\<in>set (map fst float_fields).
             \<exists>v. ParseFloat (numeric_text (fields' key)) = Inr v)"
    by (simp only: first_error_None coercions_accept)
next
  fix num e
  assume "ParseInt num = Inl e"
  then show "\<exists>kind. e = NumError ''ParseInt'' num kind"
    by (rule ParseInt_Inl)
qed

theorem decode_fails_only_by_coercion_witness:
  "snd (UnmarshalJSON (\<lambda>data. Inr payload_abc_region) ParseFloat_ex Server_zero []) =
     first_error (coercions ParseFloat_ex payload_abc_region) \<and>
   first_error (coercions ParseFloat_ex payload_abc_region) =
     Some (NumError ''ParseInt'' ''abc'' ErrSyntax) \<and>
   snd (UnmarshalJSON (\<lambda>data. Inl (OtherError ''unexpected end of JSON input'')) ParseFloat_ex
          Server_zero []) = Some (OtherError ''unexpected end of JSON input'')"
proof -
  have a: "snd (UnmarshalJSON (\<lambda>data. Inr payload_abc_region) ParseFloat_ex Server_zero []) =
     first_error (coercions ParseFloat_ex payload_abc_region)"
    using decode_fails_only_by_coercion
      [of "\<lambda>data. Inr payload_abc_region" ParseFloat_ex Server_zero "[]"]
    by simp
  have b: "snd (UnmarshalJSON (\<lambda>data. Inl (OtherError ''unexpected end of JSON input''))
          ParseFloat_ex Server_zero []) = Some (OtherError ''unexpected end of JSON input'')"
    using decode_fails_only_by_coercion
      [of "\<lambda>data. Inl (OtherError ''unexpected end of JSON input'')" ParseFloat_ex Server_zero "[]"]
    by simp
  have c: "first_error (coercions ParseFloat_ex payload_abc_region) =
     Some (NumError ''ParseInt'' ''abc'' ErrSyntax)"
    by (simp add: coercions_def int_fields_def float_fields_def numeric_text_abc ParseInt_abc
        ParseInt_0)
  from a b c show ?thesis by simp
qed

section \<open>What a failed decode leaves behind\<close>

lemma decode_payload_partial:
  "UnmarshalJSON (\<lambda>data. Inr payload_partial) ParseFloat_ex s [] =
     (s\<lparr>VCpus := 2\<rparr>, Some (NumError ''ParseInt'' ''abc'' ErrSyntax))"
proof -
  have "numeric_text (payload_partial ''vcpu_count'') = ''2''"
    "numeric_text (payload_partial ''DCID'') = ''abc''"
    by (simp_all add: payload_partial_def numeric_text_def Sprintf_v_def FormatFloat_2)
  then show ?thesis
    by (simp add: UnmarshalJSON_def decode_fields_def ParseInt_2 ParseInt_abc)
qed

text \<open>
  C2, as stated, fails for the decoder itself: \<^verbatim>\<open>UnmarshalJSON\<close> writes each numeric
  field as soon as it is converted, so when \<^verbatim>\<open>DCID\<close> is refused the target already holds
  the new \<^verbatim>\<open>VCpus\<close> next to the old values of every other field.
\<close>

theorem failed_decode_leaves_partial_target:
  "UnmarshalJSON (\<lambda>data. Inr payload_partial) ParseFloat_ex Server_zero [] =
     (Server_zero\<lparr>VCpus := 2\<rparr>, Some (NumError ''ParseInt'' ''abc'' ErrSyntax)) \<and>
   VCpus (Server_zero\<lparr>VCpus := 2\<rparr>) = 2 \<and> VCpus Server_zero = 0 \<and>
   RegionID (Server_zero\<lparr>VCpus := 2\<rparr>) = RegionID Server_zero \<and>
   ID (Server_zero\<lparr>VCpus := 2\<rparr>) = ID Server_zero"
  by (simp add: decode_payload_partial) (simp add: Server_zero_def)

text \<open>
  C2, amended. Whenever the request of \<^verbatim>\<open>GetServer\<close> or of \<^verbatim>\<open>CreateServer\<close> returns an
  error, a failed decode included, the method returns the zero entity with that error,
  whatever the request left in its target: no partly decoded entity reaches the caller
  of these methods.
\<close>

theorem failed_request_returns_zero:
  "(snd (get (''server/list?SUBID='' @ id') Server_zero) = Some err \<longrightarrow>
      GetServer get id' = (Server_zero, Some err)) \<and>
   (snd (post ''server/create'' (CreateServer_values name regionID planID osID options)
           Server_zero) = Some err \<longrightarrow>
      CreateServer post name regionID planID osID options = (Server_zero, Some err))"
  by (auto simp: GetServer_def CreateServer_def split: prod.splits option.splits)

theorem failed_request_returns_zero_witness:
  "snd (get_ex payload_partial (''server/list?SUBID='' @ ''576965'') Server_zero) =
     Some (NumError ''ParseInt'' ''abc'' ErrSyntax) \<and>
   fst (get_ex payload_partial (''server/list?SUBID='' @ ''576965'') Server_zero) =
     Server_zero\<lparr>VCpus := 2\<rparr> \<and>
   GetServer (get_ex payload_partial) ''576965'' =
     (Server_zero, Some (NumError ''ParseInt'' ''abc'' ErrSyntax)) \<and>
   CreateServer (\<lambda>path values. get_ex payload_partial path) ''web'' 1 201 127 None =
     (Server_zero, Some (NumError ''ParseInt'' ''abc'' ErrSyntax))"
proof -
  have g: "get_ex payload_partial path Server_zero =
             (Server_zero\<lparr>VCpus := 2\<rparr>, Some (NumError ''ParseInt'' ''abc'' ErrSyntax))" for path
    by (simp add: get_ex_def decode_payload_partial)
  note t = failed_request_returns_zero
    [of "get_ex payload_partial" "''576965''" "NumError ''ParseInt'' ''abc'' ErrSyntax"
        "\<lambda>path values. get_ex payload_partial path" "''web''" 1 201 127 None]
  from t g have "GetServer (get_ex payload_partial) ''576965'' =
     (Server_zero, Some (NumError ''ParseInt'' ''abc'' ErrSyntax))"
    by simp
  moreover from t g have
    "CreateServer (\<lambda>path values. get_ex payload_partial path) ''web'' 1 201 127 None =
     (Server_zero, Some (NumError ''ParseInt'' ''abc'' ErrSyntax))"
    by simp
  ultimately show ?thesis using g by simp
qed

end
